theory Spec2Isabelle
  imports Main "HOL-Library.AList"
begin

text \<open>
  E/B LAN: message exchange between services on a local network, without a broker. The
  theory embeds the router (routes and topic subscriptions), the local and the multicast
  discovery, the JSON protocol, and the service with its pending requests, deadline
  timers and retry loop, and proves properties of calls, responses, publishing and
  registration on them. Asynchronous code is modelled by the events the event loop runs:
  a timer fires, the promise of a send settles, a frame arrives.
\<close>

section \<open>Types (src/types/index.ts)\<close>

datatype MessageType = REQUEST | RESPONSE | EVENT

datatype StatusCode = OK | BAD_REQUEST | NOT_FOUND | INTERNAL_ERROR

fun status_number :: "StatusCode \<Rightarrow> int" where
  "status_number OK = 200"
| "status_number BAD_REQUEST = 400"
| "status_number NOT_FOUND = 404"
| "status_number INTERNAL_ERROR = 500"

datatype TransportType = TCP | UDP

datatype MessageFormat = JSON | PROTOBUF | MSGPACK

text \<open>
  A thrown JavaScript value: an \<open>EblanError\<close> carries a status code, any other
  \<open>Error\<close> only its message.
\<close>

datatype js_error = EblanError string StatusCode | Error string

fun error_message :: "js_error \<Rightarrow> string" where
  "error_message (EblanError msg _) = msg"
| "error_message (Error msg) = msg"

text \<open>
  Payloads are JavaScript values. Numbers are integers here; floating point is outside of
  this development. An object is the list of its own properties in insertion order.
\<close>

datatype jv =
    JUndefined
  | JNull
  | JBool bool
  | JNum int
  | JStr string
  | JArr "jv list"
  | JObj "(string \<times> jv) list"

text \<open>Printing a number, in a template literal or in JSON.\<close>

fun show_nat :: "nat \<Rightarrow> string" where
  "show_nat n =
     (if n < 10 then [''0123456789'' ! n]
      else show_nat (n div 10) @ [''0123456789'' ! (n mod 10)])"

declare show_nat.simps [simp del]

definition show_int :: "int \<Rightarrow> string" where
  "show_int i = (if i < 0 then ''-'' @ show_nat (nat (- i)) else show_nat (nat i))"

text \<open>
  \<open>MessageHeader\<close>. The fields \<open>status\<close> and \<open>target\<close> are optional in the
  interface. \<open>port\<close> is not declared there, but \<open>Service.handleIncomingMessage\<close> reads
  \<open>message.header.port\<close> of a decoded message, so the field is part of the model; it is
  \<open>None\<close> (undefined) in every header the code itself builds.
\<close>

record MessageHeader =
  id_h :: string
  type_h :: MessageType
  status :: "StatusCode option"
  timestamp :: int
  service :: string
  target :: "string option"
  port_h :: "int option"

record Message =
  header :: MessageHeader
  payload :: jv

text \<open>
  \<open>ServiceConfig\<close>. The interface declares \<open>name: string\<close>; the discovery
  implementations nevertheless test \<open>!service.name\<close>, which also holds for a
  configuration that has no name at all, so the name is optional in the model
  (\<open>None\<close> is \<open>undefined\<close>).
\<close>

record ServiceConfig =
  name :: "string option"
  port :: int
  host :: "string option"
  transport :: "TransportType option"
  format :: "MessageFormat option"
  timeout :: "int option"
  retries :: "int option"

text \<open>Truthiness of an optional string and of an optional number, and \<open>a || b\<close>.\<close>

fun truthy_string :: "string option \<Rightarrow> bool" where
  "truthy_string None = False"
| "truthy_string (Some s) = (s \<noteq> [])"

fun truthy_number :: "int option \<Rightarrow> bool" where
  "truthy_number None = False"
| "truthy_number (Some n) = (n \<noteq> 0)"

fun string_or :: "string option \<Rightarrow> string \<Rightarrow> string" where
  "string_or None d = d"
| "string_or (Some s) d = (if s = [] then d else s)"

fun number_or :: "int option \<Rightarrow> int \<Rightarrow> int" where
  "number_or None d = d"
| "number_or (Some n) d = (if n = 0 then d else n)"

section \<open>Router (src/routing/index.ts)\<close>

text \<open>
  A handler is a function object; the subscription sets compare handlers by identity, so
  a handler is modelled by the number that identifies it. What a handler does when it is
  called is given by the parameter \<open>run\<close>: \<open>Inl msg\<close> when it throws (or rejects with)
  an error with message \<open>msg\<close>, \<open>Inr v\<close> when it returns (or resolves to) \<open>v\<close>. Handlers
  are assumed not to call back into the router.

  A JavaScript \<open>Set\<close> iterates in insertion order: the subscribers of a topic are a list
  without duplicates.

  \<open>events\<close> is a Node.js \<open>EventEmitter\<close>, on which the router only ever emits
  \<open>'error'\<close>. \<open>error_listeners\<close> are the listeners registered for that event through
  \<open>on\<close>. The fields \<open>invoked\<close> and \<open>reported\<close> record what was observable: the
  handler calls made, and the errors delivered to listeners.
\<close>

type_synonym handler = nat
type_synonym listener = nat

record RouterImpl =
  routes :: "string \<rightharpoonup> handler"
  subscriptions :: "string \<rightharpoonup> handler list"
  error_listeners :: "listener list"
  invoked :: "(handler \<times> Message) list"
  reported :: "(listener \<times> js_error) list"

definition RouterImpl_new :: RouterImpl where
  "RouterImpl_new =
     \<lparr>routes = Map.empty, subscriptions = Map.empty, error_listeners = [],
      invoked = [], reported = []\<rparr>"

definition register :: "string \<Rightarrow> handler \<Rightarrow> RouterImpl \<Rightarrow> RouterImpl" where
  "register route h r = r\<lparr>routes := (routes r)(route \<mapsto> h)\<rparr>"

definition unregister :: "string \<Rightarrow> RouterImpl \<Rightarrow> RouterImpl" where
  "unregister route r = r\<lparr>routes := (routes r)(route := None)\<rparr>"

definition router_on :: "string \<Rightarrow> listener \<Rightarrow> RouterImpl \<Rightarrow> RouterImpl" where
  "router_on event l r =
     (if event = ''error'' then r\<lparr>error_listeners := error_listeners r @ [l]\<rparr> else r)"

text \<open>
  \<open>this.events.emit('error', e)\<close>. Node.js treats this event specially: when no
  listener is registered for \<open>'error'\<close>, \<open>emit\<close> throws \<open>e\<close>. Otherwise every
  listener is called with \<open>e\<close>. The first component is the error thrown by \<open>emit\<close>, if
  any.
\<close>

definition emit_error :: "js_error \<Rightarrow> RouterImpl \<Rightarrow> js_error option \<times> RouterImpl" where
  "emit_error e r =
     (if error_listeners r = [] then (Some e, r)
      else (None, r\<lparr>reported := reported r @ map (\<lambda>l. (l, e)) (error_listeners r)\<rparr>))"

text \<open>
  The loop \<open>for (const handler of subscribers) { try { await handler(message) } catch
  (error) { this.events.emit('error', new EblanError(prefix + error.message,
  INTERNAL_ERROR)) } }\<close>, shared by \<open>route\<close> and \<open>publish\<close>. An error thrown inside
  the \<open>catch\<close> block leaves the loop.
\<close>

fun call_subscribers ::
  "(handler \<Rightarrow> Message \<Rightarrow> string + jv) \<Rightarrow> string \<Rightarrow> Message \<Rightarrow> handler list \<Rightarrow> RouterImpl
     \<Rightarrow> js_error option \<times> RouterImpl" where
  "call_subscribers run prefix m [] r = (None, r)"
| "call_subscribers run prefix m (h # hs) r =
     (let r1 = r\<lparr>invoked := invoked r @ [(h, m)]\<rparr> in
      case run h m of
        Inr _ \<Rightarrow> call_subscribers run prefix m hs r1
      | Inl msg \<Rightarrow>
          (case emit_error (EblanError (prefix @ msg) INTERNAL_ERROR) r1 of
             (Some thrown, r2) \<Rightarrow> (Some thrown, r2)
           | (None, r2) \<Rightarrow> call_subscribers run prefix m hs r2))"

text \<open>
  \<open>route\<close>: the result is the thrown error or the returned value (\<open>JNull\<close> for
  \<open>null\<close>), together with the router afterwards. A missing target and the empty string
  are both falsy.
\<close>

definition route ::
  "(handler \<Rightarrow> Message \<Rightarrow> string + jv) \<Rightarrow> Message \<Rightarrow> RouterImpl \<Rightarrow> (js_error + jv) \<times> RouterImpl" where
  "route run m r =
     (if type_h (header m) = REQUEST then
        (case target (header m) of
           None \<Rightarrow> (Inl (EblanError ''Missing target in request message'' BAD_REQUEST), r)
         | Some rt \<Rightarrow>
             if rt = [] then
               (Inl (EblanError ''Missing target in request message'' BAD_REQUEST), r)
             else
               (case routes r rt of
                  None \<Rightarrow>
                    (Inl (EblanError (''No handler registered for route: '' @ rt) NOT_FOUND), r)
                | Some h \<Rightarrow>
                    (let r1 = r\<lparr>invoked := invoked r @ [(h, m)]\<rparr> in
                     case run h m of
                       Inr v \<Rightarrow> (Inr v, r1)
                     | Inl msg \<Rightarrow>
                         (Inl (EblanError (''Error handling message: '' @ msg) INTERNAL_ERROR),
                          r1))))
      else if type_h (header m) = EVENT then
        (case target (header m) of
           None \<Rightarrow> (Inl (EblanError ''Missing target in event message'' BAD_REQUEST), r)
         | Some topic \<Rightarrow>
             if topic = [] then
               (Inl (EblanError ''Missing target in event message'' BAD_REQUEST), r)
             else
               (case subscriptions r topic of
                  None \<Rightarrow> (Inr JNull, r)
                | Some subscribers \<Rightarrow>
                    (case call_subscribers run ''Error handling event: '' m subscribers r of
                       (Some thrown, r1) \<Rightarrow> (Inl thrown, r1)
                     | (None, r1) \<Rightarrow> (Inr JNull, r1))))
      else (Inr JNull, r))"

text \<open>\<open>subscribers.add(handler)\<close> and \<open>subscribers.delete(handler)\<close> on a \<open>Set\<close>.\<close>

definition set_add :: "'a \<Rightarrow> 'a list \<Rightarrow> 'a list" where
  "set_add x xs = (if x \<in> set xs then xs else xs @ [x])"

definition set_delete :: "'a \<Rightarrow> 'a list \<Rightarrow> 'a list" where
  "set_delete x xs = filter (\<lambda>y. y \<noteq> x) xs"

definition subscribe :: "string \<Rightarrow> handler \<Rightarrow> RouterImpl \<Rightarrow> RouterImpl" where
  "subscribe topic h r =
     (case subscriptions r topic of
        None \<Rightarrow> r\<lparr>subscriptions := (subscriptions r)(topic \<mapsto> set_add h [])\<rparr>
      | Some subscribers \<Rightarrow>
          r\<lparr>subscriptions := (subscriptions r)(topic \<mapsto> set_add h subscribers)\<rparr>)"

text \<open>
  \<open>unsubscribe(topic, handler?)\<close>: a function object is always truthy, so the test
  \<open>if (handler)\<close> is the test that the argument was given.
\<close>

definition unsubscribe :: "string \<Rightarrow> handler option \<Rightarrow> RouterImpl \<Rightarrow> RouterImpl" where
  "unsubscribe topic ho r =
     (case subscriptions r topic of
        None \<Rightarrow> r
      | Some subscribers \<Rightarrow>
          (case ho of
             Some h \<Rightarrow> r\<lparr>subscriptions := (subscriptions r)(topic \<mapsto> set_delete h subscribers)\<rparr>
           | None \<Rightarrow> r\<lparr>subscriptions := (subscriptions r)(topic := None)\<rparr>))"

text \<open>
  \<open>publish(topic, payload)\<close>; \<open>uuid\<close> is the value of \<open>crypto.randomUUID()\<close> and
  \<open>now\<close> that of \<open>Date.now()\<close>. The first component is the error \<open>publish\<close> rejects
  with, if any.
\<close>

definition publish_message :: "string \<Rightarrow> int \<Rightarrow> string \<Rightarrow> jv \<Rightarrow> Message" where
  "publish_message uuid now topic p =
     \<lparr>header = \<lparr>id_h = uuid, type_h = EVENT, status = None, timestamp = now,
                 service = ''publisher'', target = Some topic, port_h = None\<rparr>,
      payload = p\<rparr>"

definition publish ::
  "(handler \<Rightarrow> Message \<Rightarrow> string + jv) \<Rightarrow> string \<Rightarrow> int \<Rightarrow> string \<Rightarrow> jv \<Rightarrow> RouterImpl
     \<Rightarrow> js_error option \<times> RouterImpl" where
  "publish run uuid now topic p r =
     (case subscriptions r topic of
        None \<Rightarrow> (None, r)
      | Some subscribers \<Rightarrow>
          if length subscribers = 0 then (None, r)
          else call_subscribers run (''Error publishing to topic '' @ topic @ '': '')
                 (publish_message uuid now topic p) subscribers r)"

section \<open>Local discovery (src/discovery/local-discovery.ts)\<close>

text \<open>
  A JavaScript \<open>Map\<close> keeps its keys in insertion order and \<open>set\<close> on an existing
  key keeps the key's place: an association list with \<open>AList.update\<close>.
\<close>

record LocalDiscovery =
  services :: "(string \<times> ServiceConfig) list"

definition LocalDiscovery_new :: LocalDiscovery where
  "LocalDiscovery_new = \<lparr>services = []\<rparr>"

definition name_required :: js_error where
  "name_required = EblanError ''Service name is required'' BAD_REQUEST"

definition local_register :: "ServiceConfig \<Rightarrow> LocalDiscovery \<Rightarrow> (js_error + unit) \<times> LocalDiscovery" where
  "local_register svc d =
     (case name svc of
        None \<Rightarrow> (Inl name_required, d)
      | Some n \<Rightarrow>
          if n = [] then (Inl name_required, d)
          else (Inr (), d\<lparr>services := AList.update n svc (services d)\<rparr>))"

definition local_discover :: "string \<Rightarrow> LocalDiscovery \<Rightarrow> ServiceConfig option" where
  "local_discover serviceName d = map_of (services d) serviceName"

definition local_listServices :: "LocalDiscovery \<Rightarrow> ServiceConfig list" where
  "local_listServices d = map snd (services d)"

definition local_close :: "LocalDiscovery \<Rightarrow> LocalDiscovery" where
  "local_close d = d\<lparr>services := []\<rparr>"

section \<open>Multicast discovery (src/discovery/multicast-discovery.ts)\<close>

text \<open>
  The gossip messages, after \<open>JSON.parse\<close>: \<open>{type: 'discovery'}\<close>,
  \<open>{type: 'service', service}\<close>, and any other parsed message. A message of type
  \<open>'service'\<close> with no \<open>service\<close> property (or a falsy one) is \<open>ServiceMsg None\<close>.
  Datagrams that do not parse are not part of the model.

  \<open>mc_services\<close> is keyed by \<open>message.service.name\<close>, which may be undefined in a
  received announcement. \<open>socket\<close> says whether \<open>this.socket\<close> is set, \<open>heartbeats\<close>
  counts the intervals started by \<open>startHeartbeat\<close>, and \<open>sent\<close> lists what was handed
  to \<open>socket.send\<close> with its destination (\<open>None\<close> is the multicast group).
\<close>

datatype gossip =
    DiscoveryMsg
  | ServiceMsg "ServiceConfig option"
  | OtherMsg

record MulticastDiscovery =
  mc_services :: "(string option \<times> ServiceConfig) list"
  socket :: bool
  serviceInfo :: "ServiceConfig option"
  heartbeats :: nat
  sent :: "(gossip \<times> (string \<times> int) option) list"

definition MulticastDiscovery_new :: MulticastDiscovery where
  "MulticastDiscovery_new =
     \<lparr>mc_services = [], socket = True, serviceInfo = None, heartbeats = 0, sent = []\<rparr>"

definition sendServiceInfo :: "string \<Rightarrow> int \<Rightarrow> MulticastDiscovery \<Rightarrow> MulticastDiscovery" where
  "sendServiceInfo address prt d =
     (if \<not> socket d \<or> serviceInfo d = None then d
      else d\<lparr>sent := sent d @ [(ServiceMsg (serviceInfo d), Some (address, prt))]\<rparr>)"

definition broadcastDiscovery :: "MulticastDiscovery \<Rightarrow> MulticastDiscovery" where
  "broadcastDiscovery d =
     (if \<not> socket d then d else d\<lparr>sent := sent d @ [(DiscoveryMsg, None)]\<rparr>)"

definition startHeartbeat :: "MulticastDiscovery \<Rightarrow> MulticastDiscovery" where
  "startHeartbeat d = d\<lparr>heartbeats := Suc (heartbeats d)\<rparr>"

text \<open>
  The socket's \<open>'message'\<close> listener, for a datagram from \<open>address:prt\<close>. The second
  component is the argument of the \<open>'service-discovered'\<close> event it emits, if any.
\<close>

definition on_message ::
  "gossip \<Rightarrow> string \<Rightarrow> int \<Rightarrow> MulticastDiscovery \<Rightarrow> MulticastDiscovery \<times> ServiceConfig option" where
  "on_message msg address prt d =
     (case msg of
        DiscoveryMsg \<Rightarrow>
          (if serviceInfo d \<noteq> None then (sendServiceInfo address prt d, None) else (d, None))
      | ServiceMsg None \<Rightarrow> (d, None)
      | ServiceMsg (Some svc) \<Rightarrow>
          (d\<lparr>mc_services := AList.update (name svc) svc (mc_services d)\<rparr>, Some svc)
      | OtherMsg \<Rightarrow> (d, None))"

definition mc_register ::
  "ServiceConfig \<Rightarrow> MulticastDiscovery \<Rightarrow> (js_error + unit) \<times> MulticastDiscovery" where
  "mc_register svc d =
     (if \<not> truthy_string (name svc) then (Inl name_required, d)
      else
        (let d1 = d\<lparr>serviceInfo := Some svc,
                     mc_services := AList.update (name svc) svc (mc_services d)\<rparr>;
             d2 = startHeartbeat d1
         in (Inr (),
             if socket d2 then d2\<lparr>sent := sent d2 @ [(ServiceMsg (Some svc), None)]\<rparr>
             else d2)))"

text \<open>
  \<open>discover\<close>: a cached service is returned at once. Otherwise a query is broadcast
  and the call waits for a \<open>'service-discovered'\<close> event with the name asked for;
  \<open>incoming\<close> are the datagrams that arrive before the 3000 ms timer fires, in order,
  each with its sender. When none of them announces the name, the result is \<open>null\<close>.
\<close>

fun await_discovered ::
  "string \<Rightarrow> (gossip \<times> string \<times> int) list \<Rightarrow> MulticastDiscovery
     \<Rightarrow> ServiceConfig option \<times> MulticastDiscovery" where
  "await_discovered serviceName [] d = (None, d)"
| "await_discovered serviceName ((msg, address, prt) # rest) d =
     (case on_message msg address prt d of
        (d1, Some svc) \<Rightarrow>
          if name svc = Some serviceName then (Some svc, d1)
          else await_discovered serviceName rest d1
      | (d1, None) \<Rightarrow> await_discovered serviceName rest d1)"

definition mc_discover ::
  "string \<Rightarrow> (gossip \<times> string \<times> int) list \<Rightarrow> MulticastDiscovery
     \<Rightarrow> ServiceConfig option \<times> MulticastDiscovery" where
  "mc_discover serviceName incoming d =
     (case map_of (mc_services d) (Some serviceName) of
        Some svc \<Rightarrow> (Some svc, d)
      | None \<Rightarrow> await_discovered serviceName incoming (broadcastDiscovery d))"

section \<open>JSON protocol (src/protocol/json-protocol.ts)\<close>

text \<open>
  \<open>JSON.stringify\<close> and \<open>JSON.parse\<close> belong to the platform and are parameters:
  \<open>stringify v\<close> is \<open>Inl msg\<close> when it throws and \<open>Inr text\<close> otherwise, \<open>parse text\<close>
  is \<open>Inl msg\<close> for a \<open>SyntaxError\<close> and \<open>Inr v\<close> otherwise. A \<open>Buffer\<close> is the
  string it holds.
\<close>

type_synonym buffer = string

fun type_string :: "MessageType \<Rightarrow> string" where
  "type_string REQUEST = ''request''"
| "type_string RESPONSE = ''response''"
| "type_string EVENT = ''event''"











section \<open>Platform: JSON.stringify and JSON.parse\<close>

text \<open>
  The two platform functions the JSON protocol calls, after ECMAScript's
  \<open>SerializeJSONProperty\<close>, \<open>QuoteJSONString\<close> and the JSON grammar, on the values of
  this development. A string is its sequence of code units, all of them below 256, and a
  \<open>Buffer\<close> made from a string is that string. Not covered, and refused by the parser
  here: a number with a fraction or an exponent, and the escape of a code unit of 256 or
  more.
\<close>










fun join :: "string \<Rightarrow> string list \<Rightarrow> string" where
  "join sep [] = []"
| "join sep [x] = x"
| "join sep (x # y # ys) = x @ sep @ join sep (y # ys)"





















section \<open>Service (src/service/index.ts)\<close>

record RequestOptions =
  opt_timeout :: "int option"
  opt_retries :: "int option"

text \<open>
  What the service is constructed from and does not define itself: the protocol (one of
  three interchangeable implementations), the outcome of \<open>discovery.discover\<close>, and the
  behaviour of the registered handlers.
\<close>

record environment =
  serialize :: "Message \<Rightarrow> js_error + buffer"
  deserialize :: "buffer \<Rightarrow> js_error + Message"
  discover :: "string \<Rightarrow> ServiceConfig option"
  handlers :: "handler \<Rightarrow> Message \<Rightarrow> string + jv"

text \<open>
  The callback of a timer created by \<open>setTimeout\<close>, with its delay: the deadline of
  \<open>sendRequest\<close> (it closes over the request id and the promise) or the backoff delay of
  \<open>request\<close>.
\<close>

datatype timer_callback =
    Deadline string nat "int option"
  | Backoff int

text \<open>
  What waits for the promise of a \<open>transport.send\<close> call: the \<open>catch\<close> handler of
  \<open>sendRequest\<close> (it closes over the timer, the request id and the promise), the
  \<open>await\<close> in the \<open>try\<close> block of \<open>handleIncomingMessage\<close> (for the frame being
  handled), or the \<open>await\<close> in its \<open>catch\<close> block, where a failure is ignored.
\<close>

datatype send_continuation =
    RequestSend nat string nat
  | ResponseSend buffer
  | ErrorResponseSend

text \<open>An entry of \<open>pendingRequests\<close>: \<open>resolve\<close> and \<open>reject\<close> of one promise, and the timer.\<close>

record pending_request =
  promise :: nat
  timer :: nat

text \<open>
  The service. \<open>timers\<close> holds the timers that are scheduled and have neither fired nor
  been cleared; \<open>promises\<close> the settled promises of \<open>sendRequest\<close> with their outcome
  (\<open>Inl\<close> rejected, \<open>Inr\<close> resolved); \<open>in_flight\<close> the \<open>transport.send\<close> calls whose
  promise is still pending, by their position in \<open>outbox\<close>; \<open>outbox\<close> every
  \<open>transport.send\<close> call made, in order; \<open>handled\<close> the calls of
  \<open>errorHandler.handle\<close> and \<open>warnings\<close> those of \<open>logger.warn\<close>.
\<close>

record Service =
  config :: ServiceConfig
  router :: RouterImpl
  pendingRequests :: "string \<rightharpoonup> pending_request"
  timers :: "nat \<rightharpoonup> timer_callback"
  timer_count :: nat
  promises :: "nat \<rightharpoonup> js_error + jv"
  promise_count :: nat
  in_flight :: "nat \<rightharpoonup> send_continuation"
  outbox :: "(string \<times> buffer \<times> send_continuation) list"
  handled :: "js_error list"
  warnings :: "string list"

text \<open>The constructor: the defaults of the configuration, and a new router.\<close>

definition Service_new :: "ServiceConfig \<Rightarrow> Service" where
  "Service_new options =
     \<lparr>config =
        \<lparr>name = name options,
         port = port options,
         host = Some (string_or (host options) ''127.0.0.1''),
         transport = Some (case transport options of Some t \<Rightarrow> t | None \<Rightarrow> TCP),
         format = Some (case format options of Some f \<Rightarrow> f | None \<Rightarrow> JSON),
         timeout = Some (number_or (timeout options) 5000),
         retries = Some (number_or (retries options) 3)\<rparr>,
      router = RouterImpl_new,
      pendingRequests = Map.empty,
      timers = Map.empty,
      timer_count = 0,
      promises = Map.empty,
      promise_count = 0,
      in_flight = Map.empty,
      outbox = [],
      handled = [],
      warnings = []\<rparr>"

text \<open>\<open>this.config.name\<close> in a header or a template literal.\<close>

definition config_name :: "Service \<Rightarrow> string" where
  "config_name s = (case name (config s) of Some n \<Rightarrow> n | None \<Rightarrow> ''undefined'')"

definition transport_send :: "string \<Rightarrow> buffer \<Rightarrow> send_continuation \<Rightarrow> Service \<Rightarrow> Service" where
  "transport_send tgt data k s =
     s\<lparr>outbox := outbox s @ [(tgt, data, k)],
       in_flight := (in_flight s)(length (outbox s) \<mapsto> k)\<rparr>"

text \<open>\<open>resolve\<close> and \<open>reject\<close>: a promise settles once, later calls do nothing.\<close>

definition settle :: "nat \<Rightarrow> js_error + jv \<Rightarrow> Service \<Rightarrow> Service" where
  "settle p v s = (if promises s p = None then s\<lparr>promises := (promises s)(p \<mapsto> v)\<rparr> else s)"

definition clearTimeout :: "nat \<Rightarrow> Service \<Rightarrow> Service" where
  "clearTimeout t s = s\<lparr>timers := (timers s)(t := None)\<rparr>"

definition setTimeout :: "timer_callback \<Rightarrow> Service \<Rightarrow> nat \<times> Service" where
  "setTimeout cb s =
     (timer_count s, s\<lparr>timers := (timers s)(timer_count s \<mapsto> cb), timer_count := Suc (timer_count s)\<rparr>)"

definition service_address :: "ServiceConfig \<Rightarrow> string" where
  "service_address svc = string_or (host svc) ''127.0.0.1'' @ '':'' @ show_int (port svc)"

text \<open>
  \<open>sendRequest\<close>, up to the point where it returns its promise: the timer is created,
  the entry stored, and \<open>transport.send\<close> called.
\<close>

definition sendRequest ::
  "ServiceConfig \<Rightarrow> buffer \<Rightarrow> string \<Rightarrow> int option \<Rightarrow> Service \<Rightarrow> nat \<times> Service" where
  "sendRequest svc data requestId tmo s =
     (let p = promise_count s;
          s1 = s\<lparr>promise_count := Suc p\<rparr>;
          (t, s2) = setTimeout (Deadline requestId p tmo) s1;
          s3 = s2\<lparr>pendingRequests := (pendingRequests s2)(requestId \<mapsto> \<lparr>promise = p, timer = t\<rparr>)\<rparr>
      in (p, transport_send (service_address svc) data (RequestSend t requestId p) s3))"

definition timed_out :: js_error where
  "timed_out = EblanError ''Request timed out'' INTERNAL_ERROR"

text \<open>A timer fires: its callback runs, unless the timer was cleared or has fired before.\<close>

definition timer_fires :: "nat \<Rightarrow> Service \<Rightarrow> Service" where
  "timer_fires t s =
     (case timers s t of
        None \<Rightarrow> s
      | Some (Deadline requestId p _) \<Rightarrow>
          settle p (Inl timed_out)
            (s\<lparr>timers := (timers s)(t := None),
               pendingRequests := (pendingRequests s)(requestId := None)\<rparr>)
      | Some (Backoff _) \<Rightarrow> s\<lparr>timers := (timers s)(t := None)\<rparr>)"

definition response_target :: "Message \<Rightarrow> Service \<Rightarrow> string" where
  "response_target m s =
     service (header m) @ '':'' @ show_int (number_or (port_h (header m)) (port (config s)))"

text \<open>
  The \<open>catch\<close> block of \<open>handleIncomingMessage\<close> for the frame \<open>data\<close> and the error
  caught; every error inside it is ignored.
\<close>

definition error_status :: "js_error \<Rightarrow> StatusCode" where
  "error_status e = (case e of EblanError _ c \<Rightarrow> c | Error _ \<Rightarrow> INTERNAL_ERROR)"

definition catch_block :: "environment \<Rightarrow> int \<Rightarrow> buffer \<Rightarrow> js_error \<Rightarrow> Service \<Rightarrow> Service" where
  "catch_block env now data e s =
     (let s1 = s\<lparr>handled := handled s @ [e]\<rparr> in
      case deserialize env data of
        Inl _ \<Rightarrow> s1
      | Inr m \<Rightarrow>
          if type_h (header m) = REQUEST then
            (let response =
                   \<lparr>header = \<lparr>id_h = id_h (header m), type_h = RESPONSE,
                              status = Some (error_status e), timestamp = now,
                              service = config_name s1, target = Some (service (header m)),
                              port_h = None\<rparr>,
                    payload = JObj [(''error'', JStr (error_message e))]\<rparr>
             in case serialize env response of
                  Inl _ \<Rightarrow> s1
                | Inr responseData \<Rightarrow>
                    transport_send (response_target m s1) responseData ErrorResponseSend s1)
          else s1)"

definition status_text :: "StatusCode option \<Rightarrow> string" where
  "status_text c = (case c of None \<Rightarrow> ''undefined'' | Some x \<Rightarrow> show_int (status_number x))"

definition request_failed :: "StatusCode option \<Rightarrow> js_error" where
  "request_failed c =
     EblanError (''Request failed with status '' @ status_text c)
       (case c of None \<Rightarrow> INTERNAL_ERROR | Some x \<Rightarrow> x)"

text \<open>
  \<open>handleIncomingMessage\<close> for the frame \<open>data\<close>, up to its first \<open>await\<close> of a
  \<open>transport.send\<close>; \<open>now\<close> is \<open>Date.now()\<close>. Calling the handler of a route is one
  step.
\<close>

definition handleIncomingMessage :: "environment \<Rightarrow> int \<Rightarrow> buffer \<Rightarrow> Service \<Rightarrow> Service" where
  "handleIncomingMessage env now data s =
     (case deserialize env data of
        Inl e \<Rightarrow> catch_block env now data e s
      | Inr m \<Rightarrow>
          (case (if type_h (header m) = RESPONSE then pendingRequests s (id_h (header m))
                 else None) of
             Some pendingRequest \<Rightarrow>
               (let s1 = clearTimeout (timer pendingRequest) s;
                    s2 = s1\<lparr>pendingRequests := (pendingRequests s1)(id_h (header m) := None)\<rparr>
                in if status (header m) = Some OK
                   then settle (promise pendingRequest) (Inr (payload m)) s2
                   else settle (promise pendingRequest)
                          (Inl (request_failed (status (header m)))) s2)
           | None \<Rightarrow>
               (case route (handlers env) m (router s) of
                  (Inl e, r1) \<Rightarrow> catch_block env now data e (s\<lparr>router := r1\<rparr>)
                | (Inr result, r1) \<Rightarrow>
                    (let s1 = s\<lparr>router := r1\<rparr> in
                     if type_h (header m) = REQUEST then
                       (let response =
                              \<lparr>header = \<lparr>id_h = id_h (header m), type_h = RESPONSE,
                                         status = Some OK, timestamp = now,
                                         service = config_name s1,
                                         target = Some (service (header m)), port_h = None\<rparr>,
                               payload = result\<rparr>
                        in case serialize env response of
                             Inl e \<Rightarrow> catch_block env now data e s1
                           | Inr responseData \<Rightarrow>
                               transport_send (response_target m s1) responseData
                                 (ResponseSend data) s1)
                     else s1))))"

text \<open>
  The promise of the \<open>k\<close>-th \<open>transport.send\<close> call rejects with \<open>e\<close>: what was waiting
  for it runs. Nothing happens when that promise has settled before.
\<close>

definition send_fails :: "environment \<Rightarrow> int \<Rightarrow> nat \<Rightarrow> js_error \<Rightarrow> Service \<Rightarrow> Service" where
  "send_fails env now k e s =
     (case in_flight s k of
        None \<Rightarrow> s
      | Some c \<Rightarrow>
          (let s1 = s\<lparr>in_flight := (in_flight s)(k := None)\<rparr> in
           case c of
             RequestSend t requestId p \<Rightarrow>
               (let s2 = clearTimeout t s1;
                    s3 = s2\<lparr>pendingRequests := (pendingRequests s2)(requestId := None)\<rparr>
                in settle p (Inl e) s3)
           | ResponseSend data \<Rightarrow> catch_block env now data e s1
           | ErrorResponseSend \<Rightarrow> s1))"

definition send_succeeds :: "nat \<Rightarrow> Service \<Rightarrow> Service" where
  "send_succeeds k s = s\<lparr>in_flight := (in_flight s)(k := None)\<rparr>"

text \<open>
  What the event loop can run while a call waits: a timer fires, the promise of a
  \<open>transport.send\<close> settles, or a frame arrives. An event that runs code reading the
  clock carries the time.
\<close>

datatype event =
    TimerFires nat
  | SendFails nat js_error int
  | SendSucceeds nat
  | Incoming buffer int

fun step :: "environment \<Rightarrow> event \<Rightarrow> Service \<Rightarrow> Service" where
  "step env (TimerFires t) s = timer_fires t s"
| "step env (SendFails k e now) s = send_fails env now k e s"
| "step env (SendSucceeds k) s = send_succeeds k s"
| "step env (Incoming data now) s = handleIncomingMessage env now data s"

text \<open>
  \<open>await\<close> of a promise of \<open>sendRequest\<close>: events run until the promise is settled.
  The result is its outcome and the events left, or \<open>None\<close> when the promise is still
  pending after all the events.
\<close>

fun await_promise ::
  "environment \<Rightarrow> nat \<Rightarrow> event list \<Rightarrow> Service \<Rightarrow> ((js_error + jv) \<times> event list) option \<times> Service" where
  "await_promise env p [] s =
     (case promises s p of Some v \<Rightarrow> (Some (v, []), s) | None \<Rightarrow> (None, s))"
| "await_promise env p (e # es) s =
     (case promises s p of
        Some v \<Rightarrow> (Some (v, e # es), s)
      | None \<Rightarrow> await_promise env p es (step env e s))"

text \<open>
  \<open>await new Promise(resolve => setTimeout(resolve, delay))\<close>: events run until the
  timer has fired.
\<close>

fun await_timer ::
  "environment \<Rightarrow> nat \<Rightarrow> event list \<Rightarrow> Service \<Rightarrow> event list option \<times> Service" where
  "await_timer env t [] s =
     (case timers s t of None \<Rightarrow> (Some [], s) | Some _ \<Rightarrow> (None, s))"
| "await_timer env t (e # es) s =
     (case timers s t of
        None \<Rightarrow> (Some (e # es), s)
      | Some _ \<Rightarrow> await_timer env t es (step env e s))"

definition retry_warning :: "int \<Rightarrow> int \<Rightarrow> js_error \<Rightarrow> string" where
  "retry_warning i n e =
     ''Request failed, retrying ('' @ show_int (i + 1) @ ''/'' @ show_int n @ ''): ''
       @ error_message e"

text \<open>
  The retry loop of \<open>request\<close>, from iteration \<open>i\<close>. The result is \<open>None\<close> when the call
  is still waiting after all the events, otherwise what the call returns or throws.
\<close>

function request_loop ::
  "environment \<Rightarrow> ServiceConfig \<Rightarrow> buffer \<Rightarrow> string \<Rightarrow> int option \<Rightarrow> int \<Rightarrow> int \<Rightarrow> event list
     \<Rightarrow> Service \<Rightarrow> (js_error + jv) option \<times> Service" where
  "request_loop env svc data requestId tmo n i evs s =
     (if i < n then
        (let (p, s1) = sendRequest svc data requestId tmo s in
         case await_promise env p evs s1 of
           (None, s2) \<Rightarrow> (None, s2)
         | (Some (Inr v, evs1), s2) \<Rightarrow> (Some (Inr v), s2)
         | (Some (Inl e, evs1), s2) \<Rightarrow>
             if i = n - 1 then (Some (Inl e), s2)
             else
               (let s3 = s2\<lparr>warnings := warnings s2 @ [retry_warning i n e]\<rparr>;
                    (t, s4) = setTimeout (Backoff (100 * 2 ^ nat i)) s3
                in case await_timer env t evs1 s4 of
                     (None, s5) \<Rightarrow> (None, s5)
                   | (Some evs2, s5) \<Rightarrow>
                       request_loop env svc data requestId tmo n (i + 1) evs2 s5))
      else (Some (Inl (EblanError ''Request failed after retries'' INTERNAL_ERROR)), s))"
  by pat_completeness auto
termination
  by (relation "measure (\<lambda>(env, svc, data, requestId, tmo, n, i, evs, s). nat (n - i))") auto

declare request_loop.simps [simp del]

text \<open>\<open>a || b\<close> on optional numbers.\<close>

definition number_or_else :: "int option \<Rightarrow> int option \<Rightarrow> int option" where
  "number_or_else a b = (if truthy_number a then a else b)"

definition request_timeout :: "RequestOptions option \<Rightarrow> Service \<Rightarrow> int option" where
  "request_timeout options s =
     number_or_else (case options of None \<Rightarrow> None | Some opts \<Rightarrow> opt_timeout opts)
       (timeout (config s))"

definition request_retries :: "RequestOptions option \<Rightarrow> Service \<Rightarrow> int option" where
  "request_retries options s =
     number_or_else (case options of None \<Rightarrow> None | Some opts \<Rightarrow> opt_retries opts)
       (retries (config s))"

definition request_message :: "string \<Rightarrow> int \<Rightarrow> string \<Rightarrow> jv \<Rightarrow> Service \<Rightarrow> Message" where
  "request_message uuid now rt p s =
     \<lparr>header = \<lparr>id_h = uuid, type_h = REQUEST, status = None, timestamp = now,
                 service = config_name s, target = Some rt, port_h = None\<rparr>,
      payload = p\<rparr>"

text \<open>
  \<open>request(serviceName, route, payload, options)\<close>, with the events that occur while
  the call runs; \<open>uuid\<close> is the value of \<open>crypto.randomUUID()\<close> and \<open>now\<close> that of
  \<open>Date.now()\<close>. A retry count that is undefined makes the loop condition false.
\<close>

definition request ::
  "environment \<Rightarrow> string \<Rightarrow> int \<Rightarrow> string \<Rightarrow> string \<Rightarrow> jv \<Rightarrow> RequestOptions option \<Rightarrow> event list
     \<Rightarrow> Service \<Rightarrow> (js_error + jv) option \<times> Service" where
  "request env uuid now serviceName rt p options evs s =
     (case discover env serviceName of
        None \<Rightarrow> (Some (Inl (EblanError (''Service not found: '' @ serviceName) NOT_FOUND)), s)
      | Some svc \<Rightarrow>
          (case serialize env (request_message uuid now rt p s) of
             Inl e \<Rightarrow> (Some (Inl e), s)
           | Inr data \<Rightarrow>
               (case request_retries options s of
                  None \<Rightarrow>
                    (Some (Inl (EblanError ''Request failed after retries'' INTERNAL_ERROR)), s)
                | Some n \<Rightarrow>
                    request_loop env svc data uuid (request_timeout options s) n 0 evs s)))"

section \<open>Observations\<close>

text \<open>
  The calls made to handler \<open>h\<close> among \<open>calls\<close>, and the handler calls a router made
  between two of its states.
\<close>

definition calls_to :: "handler \<Rightarrow> (handler \<times> Message) list \<Rightarrow> Message list" where
  "calls_to h calls = map snd (filter (\<lambda>c. fst c = h) calls)"

definition calls_since :: "RouterImpl \<Rightarrow> RouterImpl \<Rightarrow> (handler \<times> Message) list" where
  "calls_since r r' = drop (length (invoked r)) (invoked r')"

text \<open>
  The \<open>transport.send\<close> calls made by \<open>sendRequest\<close>, each with its target, its bytes
  and the request id its entry was stored under.
\<close>

fun request_send_of ::
  "string \<times> buffer \<times> send_continuation \<Rightarrow> (string \<times> buffer \<times> string) option" where
  "request_send_of (tgt, data, RequestSend t requestId p) = Some (tgt, data, requestId)"
| "request_send_of (tgt, data, ResponseSend _) = None"
| "request_send_of (tgt, data, ErrorResponseSend) = None"

definition request_sends :: "Service \<Rightarrow> (string \<times> buffer \<times> string) list" where
  "request_sends s = List.map_filter request_send_of (outbox s)"

text \<open>The warnings logged for the failed attempts \<open>i\<close>, \<open>i + 1\<close>, ... of a call.\<close>

fun retry_warnings :: "int \<Rightarrow> int \<Rightarrow> js_error list \<Rightarrow> string list" where
  "retry_warnings i n [] = []"
| "retry_warnings i n (e # es) = retry_warning i n e # retry_warnings (i + 1) n es"

text \<open>What no event changes: the sends of requests, the promises created, the warnings,
  and the outcome of a settled promise.\<close>

definition steady :: "Service \<Rightarrow> Service \<Rightarrow> bool" where
  "steady s s' \<longleftrightarrow>
     request_sends s' = request_sends s \<and> promise_count s' = promise_count s \<and>
     warnings s' = warnings s \<and> (\<forall>p v. promises s p = Some v \<longrightarrow> promises s' p = Some v)"

text \<open>
  Entries and deadline timers go in pairs: every entry of \<open>pendingRequests\<close> has its
  timer scheduled, and every scheduled deadline timer has its entry. The last two parts
  are bookkeeping: timer ids are new, and the timer a \<open>catch\<close> handler of \<open>sendRequest\<close>
  closes over is, while scheduled, the deadline of that same attempt.
\<close>

definition paired :: "Service \<Rightarrow> bool" where
  "paired s \<longleftrightarrow>
     (\<forall>requestId pr. pendingRequests s requestId = Some pr \<longrightarrow>
        (\<exists>d. timers s (timer pr) = Some (Deadline requestId (promise pr) d))) \<and>
     (\<forall>t requestId p d. timers s t = Some (Deadline requestId p d) \<longrightarrow>
        pendingRequests s requestId = Some \<lparr>promise = p, timer = t\<rparr>) \<and>
     (\<forall>t. timer_count s \<le> t \<longrightarrow> timers s t = None) \<and>
     (\<forall>k t requestId p. in_flight s k = Some (RequestSend t requestId p) \<longrightarrow>
        t < timer_count s \<and>
        (\<forall>cb. timers s t = Some cb \<longrightarrow> (\<exists>d. cb = Deadline requestId p d)))"

text \<open>
  A \<open>transport.send\<close> of \<open>sendRequest\<close> fails when the entry stored under its request
  id belongs to a later attempt.
\<close>

definition stale_send_failure :: "event \<Rightarrow> Service \<Rightarrow> bool" where
  "stale_send_failure e s =
     (case e of
        SendFails k _ _ \<Rightarrow>
          (case in_flight s k of
             Some (RequestSend t requestId p) \<Rightarrow>
               (case pendingRequests s requestId of
                  Some pr \<Rightarrow> timer pr \<noteq> t
                | None \<Rightarrow> False)
           | _ \<Rightarrow> False)
      | _ \<Rightarrow> False)"





section \<open>Concrete inputs\<close>

text \<open>Two services as in the repository's example and test, and handlers for a router.\<close>

definition service_a :: ServiceConfig where
  "service_a = \<lparr>name = Some ''service-a'', port = 3000, host = Some ''127.0.0.1'',
                 transport = None, format = None, timeout = None, retries = None\<rparr>"

definition service_b :: ServiceConfig where
  "service_b = \<lparr>name = Some ''service-b'', port = 3001, host = None,
                 transport = Some TCP, format = Some JSON, timeout = None, retries = None\<rparr>"

definition nameless :: ServiceConfig where
  "nameless = \<lparr>name = Some [], port = 9000, host = None, transport = None, format = None,
                timeout = None, retries = None\<rparr>"

definition never_throwing :: "handler \<Rightarrow> Message \<Rightarrow> string + jv" where
  "never_throwing h m = Inr (JNum (int h))"

definition throwing_first :: "handler \<Rightarrow> Message \<Rightarrow> string + jv" where
  "throwing_first h m = (if h = 1 then Inl ''boom'' else Inr JNull)"

definition two_subscribers :: RouterImpl where
  "two_subscribers = subscribe ''news'' 2 (subscribe ''news'' 1 RouterImpl_new)"

definition call_to :: "string \<Rightarrow> Message" where
  "call_to rt =
     \<lparr>header = \<lparr>id_h = ''1'', type_h = REQUEST, status = None, timestamp = 0,
                 service = ''service-b'', target = Some rt, port_h = None\<rparr>,
      payload = JNull\<rparr>"




text \<open>
  The environment of service B: a protocol that writes a message as its type and id and
  reads one response, a discovery that knows service A.
\<close>

definition greeting_response :: Message where
  "greeting_response =
     \<lparr>header = \<lparr>id_h = ''123'', type_h = RESPONSE, status = Some OK, timestamp = 7,
                 service = ''service-a'', target = Some ''service-b'', port_h = None\<rparr>,
      payload = JObj [(''greeting'', JStr ''Hello, World!'')]\<rparr>"

definition serialize_by_id :: "Message \<Rightarrow> js_error + buffer" where
  "serialize_by_id m = Inr (type_string (type_h (header m)) @ '' '' @ id_h (header m))"

definition deserialize_response :: "buffer \<Rightarrow> js_error + Message" where
  "deserialize_response data =
     (if data = ''response 123'' then Inr greeting_response
      else Inl (EblanError ''Failed to deserialize message: Unexpected token'' BAD_REQUEST))"

definition discover_service_a :: "string \<Rightarrow> ServiceConfig option" where
  "discover_service_a serviceName = (if serviceName = ''service-a'' then Some service_a else None)"

definition example_env :: environment where
  "example_env =
     \<lparr>serialize = serialize_by_id, deserialize = deserialize_response,
      discover = discover_service_a, handlers = never_throwing\<rparr>"

definition connection_error :: js_error where
  "connection_error = EblanError ''Connection error: connect EHOSTUNREACH'' INTERNAL_ERROR"

text \<open>Request options, and the events of three runs of a call.\<close>

definition zero_retries :: RequestOptions where
  "zero_retries = \<lparr>opt_timeout = None, opt_retries = Some 0\<rparr>"

definition two_retries :: RequestOptions where
  "two_retries = \<lparr>opt_timeout = None, opt_retries = Some 2\<rparr>"

definition one_second :: RequestOptions where
  "one_second = \<lparr>opt_timeout = Some 1000, opt_retries = None\<rparr>"

definition all_sends_fail :: "event list" where
  "all_sends_fail =
     [SendFails 0 connection_error 1, TimerFires 1, SendFails 1 connection_error 2,
      TimerFires 3, SendFails 2 connection_error 3]"

definition fail_then_respond :: "event list" where
  "fail_then_respond =
     [SendFails 0 connection_error 1, TimerFires 1, Incoming ''response 123'' 9]"

definition late_send_failure :: "event list" where
  "late_send_failure = [TimerFires 0, TimerFires 1, SendFails 0 connection_error 3]"

section \<open>Router: dispatch and fan-out\<close>

lemma call_subscribers_all:
  assumes "error_listeners r \<noteq> [] \<or> (\<forall>h \<in> set hs. \<exists>v. run h m = Inr v)"
  shows "fst (call_subscribers run prefix m hs r) = None \<and>
         invoked (snd (call_subscribers run prefix m hs r)) = invoked r @ map (\<lambda>h. (h, m)) hs"
  using assms
  by (induction hs arbitrary: r)
     (auto simp: emit_error_def Let_def split: sum.splits prod.splits option.splits if_splits)

lemma calls_to_once:
  "distinct hs \<Longrightarrow> h \<in> set hs \<Longrightarrow> calls_to h (map (\<lambda>g. (g, m)) hs) = [m]"
proof (induction hs)
  case Nil
  then show ?case by simp
next
  case (Cons g gs)
  have none: "h \<notin> set gs \<Longrightarrow> calls_to h (map (\<lambda>g. (g, m)) gs) = []"
    by (induction gs) (auto simp: calls_to_def)
  show ?case
  proof (cases "g = h")
    case True
    with Cons.prems none show ?thesis by (simp add: calls_to_def)
  next
    case False
    with Cons show ?thesis by (simp add: calls_to_def)
  qed
qed

lemma publish_all:
  assumes "subscriptions r t = Some hs"
    and "error_listeners r \<noteq> [] \<or>
         (\<forall>h \<in> set hs. \<exists>v. run h (publish_message uuid now t p) = Inr v)"
  shows "fst (publish run uuid now t p r) = None \<and>
         calls_since r (snd (publish run uuid now t p r)) =
           map (\<lambda>h. (h, publish_message uuid now t p)) hs"
proof (cases "hs = []")
  case True
  with assms(1) show ?thesis by (simp add: publish_def calls_since_def)
next
  case False
  from call_subscribers_all [of r hs run "publish_message uuid now t p", OF assms(2)]
  have "fst (call_subscribers run (''Error publishing to topic '' @ t @ '': '')
               (publish_message uuid now t p) hs r) = None \<and>
        invoked (snd (call_subscribers run (''Error publishing to topic '' @ t @ '': '')
               (publish_message uuid now t p) hs r)) =
          invoked r @ map (\<lambda>h. (h, publish_message uuid now t p)) hs" .
  with False assms(1) show ?thesis
    by (simp add: publish_def calls_since_def)
qed

text \<open>The same loop in \<open>route\<close>, for an event received for a non-empty topic.\<close>

lemma route_event_all:
  assumes "type_h (header m) = EVENT" and "target (header m) = Some t" and "t \<noteq> []"
    and "subscriptions r t = Some hs"
    and "error_listeners r \<noteq> [] \<or> (\<forall>h \<in> set hs. \<exists>v. run h m = Inr v)"
  shows "fst (route run m r) = Inr JNull \<and>
         calls_since r (snd (route run m r)) = map (\<lambda>h. (h, m)) hs"
proof -
  from call_subscribers_all [of r hs run m, OF assms(5)]
  have "fst (call_subscribers run ''Error handling event: '' m hs r) = None \<and>
        invoked (snd (call_subscribers run ''Error handling event: '' m hs r)) =
          invoked r @ map (\<lambda>h. (h, m)) hs" .
  with assms(1-4) show ?thesis
    by (auto simp: route_def calls_since_def split: prod.splits option.splits)
qed

text \<open>The subscribers of every topic stay free of duplicates, as the members of a \<open>Set\<close>.\<close>

lemma subscribe_distinct:
  "\<forall>t hs. subscriptions r t = Some hs \<longrightarrow> distinct hs \<Longrightarrow>
   subscriptions (subscribe topic h r) t = Some hs \<Longrightarrow> distinct hs"
  by (auto simp: subscribe_def set_add_def split: option.splits if_splits)

lemma unsubscribe_distinct:
  "\<forall>t hs. subscriptions r t = Some hs \<longrightarrow> distinct hs \<Longrightarrow>
   subscriptions (unsubscribe topic ho r) t = Some hs \<Longrightarrow> distinct hs"
  by (auto simp: unsubscribe_def set_delete_def split: option.splits if_splits)

text \<open>
  When a listener for \<open>'error'\<close> is registered, an error thrown by a subscriber is
  delivered to it, and every subscriber is called once.
\<close>

lemma reported_mono:
  "x \<in> set (reported r) \<Longrightarrow> x \<in> set (reported (snd (call_subscribers run prefix m hs r)))"
  by (induction hs arbitrary: r)
     (auto simp: emit_error_def Let_def split: sum.splits prod.splits option.splits if_splits)

lemma call_subscribers_reports:
  assumes "error_listeners r \<noteq> []" and "h \<in> set hs" and "run h m = Inl msg"
    and "l \<in> set (error_listeners r)"
  shows "(l, EblanError (prefix @ msg) INTERNAL_ERROR)
           \<in> set (reported (snd (call_subscribers run prefix m hs r)))"
  using assms
proof (induction hs arbitrary: r)
  case Nil
  then show ?case by simp
next
  case (Cons g gs)
  show ?case
  proof (cases "g = h")
    case True
    let ?r1 = "r\<lparr>invoked := invoked r @ [(g, m)]\<rparr>"
    let ?r2 = "?r1\<lparr>reported := reported ?r1 @
                 map (\<lambda>l. (l, EblanError (prefix @ msg) INTERNAL_ERROR)) (error_listeners ?r1)\<rparr>"
    have "(l, EblanError (prefix @ msg) INTERNAL_ERROR) \<in> set (reported ?r2)"
      using Cons.prems(4) by auto
    from reported_mono [OF this, of run prefix m gs] True Cons.prems(1,3) show ?thesis
      by (simp add: emit_error_def Let_def)
  next
    case False
    with Cons.prems(2) have mem: "h \<in> set gs" by simp
    show ?thesis
    proof (cases "run g m")
      case (Inr v)
      with Cons.IH [of "r\<lparr>invoked := invoked r @ [(g, m)]\<rparr>"] Cons.prems mem show ?thesis
        by (simp add: Let_def)
    next
      case (Inl msg')
      let ?r1 = "r\<lparr>invoked := invoked r @ [(g, m)]\<rparr>"
      let ?r2 = "?r1\<lparr>reported := reported ?r1 @
                 map (\<lambda>l. (l, EblanError (prefix @ msg') INTERNAL_ERROR)) (error_listeners ?r1)\<rparr>"
      from Cons.IH [of ?r2] Cons.prems mem Inl show ?thesis
        by (simp add: emit_error_def Let_def)
    qed
  qed
qed

lemma publish_isolates_with_listener:
  assumes "subscriptions r t = Some hs" and "distinct hs" and "h1 \<in> set hs" and "h2 \<in> set hs"
    and "run h1 (publish_message uuid now t p) = Inl msg"
    and "l \<in> set (error_listeners r)"
  shows "fst (publish run uuid now t p r) = None \<and>
         calls_to h2 (calls_since r (snd (publish run uuid now t p r))) =
           [publish_message uuid now t p] \<and>
         (l, EblanError (''Error publishing to topic '' @ t @ '': '' @ msg) INTERNAL_ERROR)
           \<in> set (reported (snd (publish run uuid now t p r)))"
proof -
  from assms(6) have ls: "error_listeners r \<noteq> []" by auto
  then have ok: "error_listeners r \<noteq> [] \<or>
      (\<forall>h \<in> set hs. \<exists>v. run h (publish_message uuid now t p) = Inr v)" by simp
  from assms(3) have ne: "hs \<noteq> []" by auto
  note a = publish_all [of r t hs run uuid now p, OF assms(1) ok]
  from call_subscribers_reports [where prefix = "''Error publishing to topic '' @ t @ '': ''"
      and r = r and h = h1 and hs = hs and run = run and m = "publish_message uuid now t p"
      and msg = msg and l = l, OF ls assms(3) assms(5) assms(6)]
  have "(l, EblanError (''Error publishing to topic '' @ t @ '': '' @ msg) INTERNAL_ERROR)
           \<in> set (reported (snd (publish run uuid now t p r)))"
    using assms(1) ne by (simp add: publish_def)
  with a calls_to_once [OF assms(2) assms(4)] show ?thesis by simp
qed

text \<open>
  C4. Publishing to a topic whose subscribers are \<open>h1\<close> and \<open>h2\<close> should call \<open>h2\<close>
  once even when \<open>h1\<close> throws, report the error to the error observers, and not fail.
  On a router that has no listener for \<open>'error'\<close> (a new router, and the router of
  every \<open>Service\<close>, which never registers one) this is what happens instead: subscriber
  1 throws, \<open>emit\<close> throws the error it was given, \<open>publish\<close> fails with that error,
  and subscriber 2 is never called.
\<close>

theorem publish_throwing_subscriber:
  "subscriptions two_subscribers ''news'' = Some [1, 2] \<and>
   error_listeners two_subscribers = [] \<and>
   fst (publish throwing_first ''u'' 0 ''news'' (JStr ''p'') two_subscribers) =
     Some (EblanError ''Error publishing to topic news: boom'' INTERNAL_ERROR) \<and>
   invoked (snd (publish throwing_first ''u'' 0 ''news'' (JStr ''p'') two_subscribers)) =
     [(1, publish_message ''u'' 0 ''news'' (JStr ''p''))]"
  by (simp add: two_subscribers_def subscribe_def set_add_def RouterImpl_new_def publish_def
      throwing_first_def emit_error_def)

text \<open>
  For a topic \<open>t\<close> with subscribers \<open>hs\<close>, of which \<open>h'\<close> is one other than \<open>h\<close>:
  \<open>subscribe(t, h)\<close> followed by \<open>unsubscribe(t, h)\<close> leaves exactly the subscribers
  other than \<open>h\<close>, so \<open>h'\<close> is still subscribed, and leaves every other topic and the
  routes as they were; \<open>unsubscribe(t)\<close> without a handler removes the topic's
  subscribers altogether, and a \<open>publish\<close> then calls nobody. When an error listener is
  registered, or no subscriber throws on the event, the next \<open>publish\<close> to \<open>t\<close> calls
  \<open>h'\<close> exactly once with the published message.
\<close>

lemma subscribe_then_unsubscribe:
  assumes "subscriptions r t = Some hs" and "distinct hs" and "h' \<in> set hs" and "h' \<noteq> h"
  shows "subscriptions (unsubscribe t (Some h) (subscribe t h r)) t =
           Some (filter (\<lambda>g. g \<noteq> h) hs) \<and>
         h' \<in> set (filter (\<lambda>g. g \<noteq> h) hs) \<and>
         (\<forall>t'. t' \<noteq> t \<longrightarrow>
            subscriptions (unsubscribe t (Some h) (subscribe t h r)) t' = subscriptions r t') \<and>
         routes (unsubscribe t (Some h) (subscribe t h r)) = routes r \<and>
         ((error_listeners r \<noteq> [] \<or>
           (\<forall>g \<in> set hs. \<exists>v. run g (publish_message uuid now t p) = Inr v)) \<longrightarrow>
          fst (publish run uuid now t p (unsubscribe t (Some h) (subscribe t h r))) = None \<and>
          calls_to h'
            (calls_since (unsubscribe t (Some h) (subscribe t h r))
               (snd (publish run uuid now t p (unsubscribe t (Some h) (subscribe t h r))))) =
            [publish_message uuid now t p]) \<and>
         subscriptions (unsubscribe t None r) t = None \<and>
         publish run uuid now t p (unsubscribe t None r) = (None, unsubscribe t None r)"
proof -
  define r1 where "r1 = unsubscribe t (Some h) (subscribe t h r)"
  define r2 where "r2 = unsubscribe t None r"
  let ?hs' = "filter (\<lambda>g. g \<noteq> h) hs"
  have s1: "subscriptions r1 t = Some ?hs'"
    using assms(1) by (auto simp: r1_def subscribe_def unsubscribe_def set_add_def set_delete_def)
  have mem: "h' \<in> set ?hs'" using assms(3,4) by simp
  have other: "\<forall>t'. t' \<noteq> t \<longrightarrow> subscriptions r1 t' = subscriptions r t'"
    using assms(1) by (auto simp: r1_def subscribe_def unsubscribe_def)
  have rts: "routes r1 = routes r"
    using assms(1) by (auto simp: r1_def subscribe_def unsubscribe_def)
  have ls: "error_listeners r1 = error_listeners r"
    using assms(1) by (auto simp: r1_def subscribe_def unsubscribe_def)
  have pub: "fst (publish run uuid now t p r1) = None \<and>
             calls_to h' (calls_since r1 (snd (publish run uuid now t p r1))) =
               [publish_message uuid now t p]"
    if ok: "error_listeners r \<noteq> [] \<or>
            (\<forall>g \<in> set hs. \<exists>v. run g (publish_message uuid now t p) = Inr v)"
  proof -
    from ok have ok': "error_listeners r1 \<noteq> [] \<or>
        (\<forall>g \<in> set ?hs'. \<exists>v. run g (publish_message uuid now t p) = Inr v)"
      by (auto simp: ls)
    have d: "distinct ?hs'" using assms(2) by simp
    from publish_all [of r1 t ?hs' run uuid now p, OF s1 ok'] calls_to_once [OF d mem]
    show ?thesis by simp
  qed
  have s2: "subscriptions r2 t = None"
    using assms(1) by (simp add: r2_def unsubscribe_def)
  have p2: "publish run uuid now t p r2 = (None, r2)"
    using s2 by (simp add: publish_def)
  show ?thesis
    unfolding r1_def [symmetric] r2_def [symmetric]
    using s1 mem other rts pub s2 p2 by blast
qed

text \<open>
  C7. After \<open>subscribe(t, h)\<close> and \<open>unsubscribe(t, h)\<close> another handler subscribed to
  \<open>t\<close> should remain subscribed and be called on the next event. In this run it remains
  subscribed and is not called: \<open>news\<close> has the subscribers 1 and 2 on a router without
  listener for \<open>'error'\<close>, handler 3 is subscribed and unsubscribed, and on the next
  \<open>publish\<close> subscriber 1 throws; \<open>emit\<close> throws in the \<open>catch\<close> block, \<open>publish\<close>
  fails, and subscriber 2 is never called.
\<close>

theorem remaining_subscriber_not_called:
  "subscriptions two_subscribers ''news'' = Some [1, 2] \<and>
   error_listeners two_subscribers = [] \<and>
   subscriptions (unsubscribe ''news'' (Some 3) (subscribe ''news'' 3 two_subscribers)) ''news'' =
     Some [1, 2] \<and>
   fst (publish throwing_first ''u'' 0 ''news'' (JStr ''p'')
          (unsubscribe ''news'' (Some 3) (subscribe ''news'' 3 two_subscribers))) =
     Some (EblanError ''Error publishing to topic news: boom'' INTERNAL_ERROR) \<and>
   calls_to 2
     (calls_since (unsubscribe ''news'' (Some 3) (subscribe ''news'' 3 two_subscribers))
        (snd (publish throwing_first ''u'' 0 ''news'' (JStr ''p'')
                (unsubscribe ''news'' (Some 3) (subscribe ''news'' 3 two_subscribers))))) = []"
  by (simp add: two_subscribers_def subscribe_def unsubscribe_def set_add_def set_delete_def
      RouterImpl_new_def publish_def throwing_first_def emit_error_def calls_to_def
      calls_since_def)

text \<open>
  C8, as amended. For every route name \<open>rt\<close> other than the empty string: after
  \<open>register(rt, h1)\<close> and \<open>register(rt, h2)\<close> the route table maps \<open>rt\<close> to \<open>h2\<close>, and
  routing a request whose target is \<open>rt\<close> makes exactly one handler call, to \<open>h2\<close>.
\<close>

theorem register_replaces:
  assumes "rt \<noteq> []" and "type_h (header m) = REQUEST" and "target (header m) = Some rt"
  shows "routes (register rt h2 (register rt h1 r)) rt = Some h2 \<and>
         calls_since r (snd (route run m (register rt h2 (register rt h1 r)))) = [(h2, m)]"
  using assms by (auto simp: register_def route_def calls_since_def Let_def split: sum.splits)

text \<open>C8 at a concrete input: two handlers registered for \<open>greeting\<close> on a new router.\<close>

theorem register_replaces_witness:
  "''greeting'' \<noteq> [] \<and> type_h (header (call_to ''greeting'')) = REQUEST \<and>
   target (header (call_to ''greeting'')) = Some ''greeting'' \<and>
   routes (register ''greeting'' 2 (register ''greeting'' 1 RouterImpl_new)) ''greeting'' =
     Some 2 \<and>
   calls_since RouterImpl_new
     (snd (route never_throwing (call_to ''greeting'')
             (register ''greeting'' 2 (register ''greeting'' 1 RouterImpl_new)))) =
     [(2, call_to ''greeting'')]"
proof -
  have h1: "''greeting'' \<noteq> []" by simp
  have h2: "type_h (header (call_to ''greeting'')) = REQUEST" by (simp add: call_to_def)
  have h3: "target (header (call_to ''greeting'')) = Some ''greeting''" by (simp add: call_to_def)
  from register_replaces [OF h1 h2 h3, of 2 1 RouterImpl_new never_throwing] h1 h2 h3
  show ?thesis by simp
qed

text \<open>
  C8 as stated fails for the route name \<open>''\<close>: the name can be registered, twice, and
  the table then holds the second handler, but a request whose target is the empty
  string is refused as having no target (\<open>if (!route)\<close>), and no handler is called.
\<close>

theorem register_replaces_empty_name:
  "routes (register [] 2 (register [] 1 RouterImpl_new)) [] = Some 2 \<and>
   fst (route never_throwing (call_to []) (register [] 2 (register [] 1 RouterImpl_new))) =
     Inl (EblanError ''Missing target in request message'' BAD_REQUEST) \<and>
   invoked (snd (route never_throwing (call_to [])
                   (register [] 2 (register [] 1 RouterImpl_new)))) = []"
  by (simp add: register_def route_def call_to_def RouterImpl_new_def)

section \<open>Discovery: registering without a name\<close>

text \<open>
  C10. In both discovery implementations, \<open>register\<close> of a configuration whose name is
  missing or empty throws an \<open>EblanError\<close> with status \<open>BAD_REQUEST\<close> and leaves the
  discovery as it was, so that \<open>discover\<close> returns for every name what it returned
  before (for the multicast discovery: given the same datagrams arriving while it waits).
\<close>

theorem register_without_name:
  assumes "\<not> truthy_string (name svc)"
  shows "local_register svc d = (Inl (EblanError ''Service name is required'' BAD_REQUEST), d) \<and>
         mc_register svc m = (Inl (EblanError ''Service name is required'' BAD_REQUEST), m) \<and>
         local_discover n (snd (local_register svc d)) = local_discover n d \<and>
         mc_discover n incoming (snd (mc_register svc m)) = mc_discover n incoming m"
proof -
  have l: "local_register svc d = (Inl name_required, d)"
    using assms by (cases "name svc") (auto simp: local_register_def)
  have c: "mc_register svc m = (Inl name_required, m)"
    using assms by (simp add: mc_register_def)
  from l c show ?thesis by (simp add: name_required_def)
qed

text \<open>
  C10 at a concrete input: service A is registered, then a configuration with the empty
  name is refused, and service A is still found.
\<close>

theorem register_without_name_witness:
  "\<not> truthy_string (name nameless) \<and>
   local_register nameless (snd (local_register service_a LocalDiscovery_new)) =
     (Inl (EblanError ''Service name is required'' BAD_REQUEST),
      snd (local_register service_a LocalDiscovery_new)) \<and>
   local_discover ''service-a''
     (snd (local_register nameless (snd (local_register service_a LocalDiscovery_new)))) =
     Some service_a \<and>
   mc_register nameless (snd (mc_register service_a MulticastDiscovery_new)) =
     (Inl (EblanError ''Service name is required'' BAD_REQUEST),
      snd (mc_register service_a MulticastDiscovery_new)) \<and>
   fst (mc_discover ''service-a'' []
     (snd (mc_register nameless (snd (mc_register service_a MulticastDiscovery_new))))) =
     Some service_a"
proof -
  have h: "\<not> truthy_string (name nameless)" by (simp add: nameless_def)
  have a: "local_discover ''service-a'' (snd (local_register service_a LocalDiscovery_new)) =
      Some service_a"
    by (simp add: service_a_def local_register_def LocalDiscovery_new_def local_discover_def)
  have b: "fst (mc_discover ''service-a'' [] (snd (mc_register service_a MulticastDiscovery_new))) =
      Some service_a"
    by (simp add: service_a_def mc_register_def MulticastDiscovery_new_def mc_discover_def
        startHeartbeat_def Let_def)
  from register_without_name [OF h, of "snd (local_register service_a LocalDiscovery_new)"
      "snd (mc_register service_a MulticastDiscovery_new)" "''service-a''" "[]"] h a b
  show ?thesis by simp
qed

section \<open>JSON protocol: round trip and rejection\<close>



section \<open>JSON text: numbers\<close>












section \<open>JSON text: strings\<close>







section \<open>JSON text: values\<close>







lemma join_Cons_Cons: "join sep (x # y # ys) = x @ sep @ join sep (y # ys)"
  by simp








section \<open>JSON protocol: messages\<close>









section \<open>Service: what events leave unchanged\<close>

lemma steady_refl: "steady s s"
  by (simp add: steady_def)

lemma steady_trans: "steady s s1 \<Longrightarrow> steady s1 s2 \<Longrightarrow> steady s s2"
  by (simp add: steady_def)

lemma steady_settle: "steady s (settle p v s)"
  by (simp add: steady_def settle_def request_sends_def)

lemma steady_fields:
  "steady s (s\<lparr>timers := a\<rparr>)" "steady s (s\<lparr>pendingRequests := b\<rparr>)"
  "steady s (s\<lparr>in_flight := c\<rparr>)" "steady s (s\<lparr>router := d\<rparr>)"
  "steady s (s\<lparr>handled := e\<rparr>)" "steady s (s\<lparr>timer_count := f\<rparr>)"
  by (simp_all add: steady_def request_sends_def)

lemma steady_clearTimeout: "steady s (clearTimeout t s)"
  by (simp add: clearTimeout_def steady_fields)

lemma steady_response_send:
  "k = ResponseSend d \<or> k = ErrorResponseSend \<Longrightarrow> steady s (transport_send tgt data k s)"
  by (auto simp: steady_def transport_send_def request_sends_def map_filter_def)

lemma steady_catch_block: "steady s (catch_block env now data e s)"
proof -
  have a: "steady s (s\<lparr>handled := handled s @ [e]\<rparr>)" by (rule steady_fields)
  show ?thesis
    unfolding catch_block_def Let_def
    by (auto split: sum.splits intro: a steady_trans [OF a] steady_response_send)
qed

lemma steady_timer_fires: "steady s (timer_fires t s)"
  by (auto simp: timer_fires_def steady_def settle_def request_sends_def
      split: option.splits timer_callback.splits)

lemma steady_handleIncomingMessage: "steady s (handleIncomingMessage env now data s)"
proof -
  have r: "steady s (s\<lparr>router := x\<rparr>)" for x by (rule steady_fields)
  have c: "steady s (catch_block env now data e (s\<lparr>router := x\<rparr>))" for e x
    by (rule steady_trans [OF r steady_catch_block])
  have t: "steady s (transport_send tgt d (ResponseSend data) (s\<lparr>router := x\<rparr>))" for tgt d x
    by (rule steady_trans [OF r steady_response_send]) simp
  have p: "steady s (settle q v
      ((clearTimeout tm s)\<lparr>pendingRequests := b\<rparr>))" for q v tm b
    by (rule steady_trans [OF steady_clearTimeout steady_trans [OF steady_fields(2) steady_settle]])
  show ?thesis
    unfolding handleIncomingMessage_def Let_def
    by (auto split: sum.splits option.splits prod.splits
        intro: steady_catch_block r c t p)
qed

lemma steady_send_fails: "steady s (send_fails env now k e s)"
proof -
  have i: "steady s (s\<lparr>in_flight := c\<rparr>)" for c by (rule steady_fields)
  have a: "steady s (settle q v ((clearTimeout tm (s\<lparr>in_flight := c\<rparr>))\<lparr>pendingRequests := b\<rparr>))"
    for q v tm b c
    by (rule steady_trans [OF i steady_trans [OF steady_clearTimeout
          steady_trans [OF steady_fields(2) steady_settle]]])
  show ?thesis
    unfolding send_fails_def Let_def
    by (auto split: option.splits send_continuation.splits
        intro: steady_refl i a steady_trans [OF i steady_catch_block])
qed

lemma steady_step: "steady s (step env e s)"
  by (cases e)
     (simp_all add: steady_timer_fires steady_send_fails steady_handleIncomingMessage
        send_succeeds_def steady_fields)

lemma await_promise_steady:
  "await_promise env p evs s = (r, s') \<Longrightarrow>
   steady s s' \<and> (\<forall>v evs1. r = Some (v, evs1) \<longrightarrow> promises s' p = Some v)"
proof (induction evs arbitrary: s)
  case Nil
  then show ?case by (auto simp: steady_refl split: option.splits)
next
  case (Cons e es)
  show ?case
  proof (cases "promises s p")
    case None
    with Cons.prems have "await_promise env p es (step env e s) = (r, s')" by simp
    from Cons.IH [OF this] steady_step [of s env e] show ?thesis
      by (auto intro: steady_trans)
  next
    case (Some v)
    with Cons.prems show ?thesis by (auto simp: steady_refl)
  qed
qed

lemma await_timer_steady:
  "await_timer env t evs s = (r, s') \<Longrightarrow> steady s s'"
proof (induction evs arbitrary: s)
  case Nil
  then show ?case by (auto simp: steady_refl split: option.splits)
next
  case (Cons e es)
  show ?case
  proof (cases "timers s t")
    case None
    with Cons.prems show ?thesis by (auto simp: steady_refl)
  next
    case (Some cb)
    with Cons.prems have "await_timer env t es (step env e s) = (r, s')" by simp
    from Cons.IH [OF this] steady_step [of s env e] show ?thesis
      by (auto intro: steady_trans)
  qed
qed

lemma sendRequest_effect:
  "sendRequest svc data requestId tmo s = (p, s1) \<Longrightarrow>
   p = promise_count s \<and> promise_count s1 = Suc (promise_count s) \<and>
   request_sends s1 = request_sends s @ [(service_address svc, data, requestId)] \<and>
   warnings s1 = warnings s \<and> promises s1 = promises s"
  by (auto simp: sendRequest_def setTimeout_def transport_send_def request_sends_def
      map_filter_def Let_def)


section \<open>Service: the retry loop\<close>

text \<open>
  The loop from iteration \<open>i < n\<close> makes \<open>k\<close> attempts, at least one and at most
  \<open>n - i\<close>, each a \<open>transport.send\<close> of the same bytes to the same target under the
  same request id. When the call returns or throws, its outcome is that of the promise of
  the last attempt; the promises of the attempts before it were rejected with \<open>errs\<close>,
  and these were logged as warnings.
\<close>

lemma request_loop_attempts:
  assumes "i < n" and "request_loop env svc data requestId tmo n i evs s = (res, s')"
  shows "\<exists>k. 1 \<le> k \<and> int k \<le> n - i \<and>
           request_sends s' =
             request_sends s @ replicate k (service_address svc, data, requestId) \<and>
           promise_count s' = promise_count s + k \<and>
           (\<forall>q v. promises s q = Some v \<longrightarrow> promises s' q = Some v) \<and>
           (\<forall>v. res = Some v \<longrightarrow>
              (\<exists>errs. Suc (length errs) = k \<and>
                 (\<forall>j < length errs. promises s' (promise_count s + j) = Some (Inl (errs ! j))) \<and>
                 promises s' (promise_count s + length errs) = Some v \<and>
                 warnings s' = warnings s @ retry_warnings i n errs))"
  using assms
proof (induction "nat (n - i)" arbitrary: i evs s)
  case 0
  then show ?case by simp
next
  case (Suc m)
  let ?x = "(service_address svc, data, requestId)"
  obtain p s1 where sr: "sendRequest svc data requestId tmo s = (p, s1)"
    by (cases "sendRequest svc data requestId tmo s")
  note e1 = sendRequest_effect [OF sr]
  obtain r s2 where aw: "await_promise env p evs s1 = (r, s2)"
    by (cases "await_promise env p evs s1")
  note e2 = await_promise_steady [OF aw]
  from e1 e2 have sends2: "request_sends s2 = request_sends s @ [?x]"
    and count2: "promise_count s2 = Suc (promise_count s)"
    and warn2: "warnings s2 = warnings s"
    and mono2: "\<forall>q v. promises s q = Some v \<longrightarrow> promises s2 q = Some v"
    by (auto simp: steady_def)
  have one: "int (Suc 0) \<le> n - i" using Suc.prems(1) by simp
  have unfold: "request_loop env svc data requestId tmo n i evs s =
      (case r of
         None \<Rightarrow> (None, s2)
       | Some (Inr v, evs1) \<Rightarrow> (Some (Inr v), s2)
       | Some (Inl e, evs1) \<Rightarrow>
           if i = n - 1 then (Some (Inl e), s2)
           else
             (let s3 = s2\<lparr>warnings := warnings s2 @ [retry_warning i n e]\<rparr>;
                  (t, s4) = setTimeout (Backoff (100 * 2 ^ nat i)) s3
              in case await_timer env t evs1 s4 of
                   (None, s5) \<Rightarrow> (None, s5)
                 | (Some evs2, s5) \<Rightarrow>
                     request_loop env svc data requestId tmo n (i + 1) evs2 s5))"
    using Suc.prems(1) sr aw
    by (subst request_loop.simps) (simp split: option.splits sum.splits prod.splits)
  show ?case
  proof (cases r)
    case None
    with unfold Suc.prems(2) have "res = None" "s' = s2" by auto
    with sends2 count2 mono2 one show ?thesis
      by (intro exI [of _ "Suc 0"]) simp
  next
    case (Some ve)
    obtain v evs1 where ve: "ve = (v, evs1)" by (cases ve)
    from e2 Some ve have settled: "promises s2 p = Some v" by simp
    from e1 have p: "p = promise_count s" by simp
    have final: ?thesis if "res = Some v" "s' = s2"
      using that sends2 count2 mono2 one settled p warn2
      by (intro exI [of _ "Suc 0"]) (auto intro: exI [of _ "[]"])
    show ?thesis
    proof (cases v)
      case (Inr x)
      with unfold Suc.prems(2) Some ve have "res = Some v" "s' = s2" by auto
      then show ?thesis by (rule final)
    next
      case (Inl e)
      show ?thesis
      proof (cases "i = n - 1")
        case True
        with unfold Suc.prems(2) Some ve Inl have "res = Some v" "s' = s2" by auto
        then show ?thesis by (rule final)
      next
        case False
        define s3 where "s3 = s2\<lparr>warnings := warnings s2 @ [retry_warning i n e]\<rparr>"
        obtain t s4 where st: "setTimeout (Backoff (100 * 2 ^ nat i)) s3 = (t, s4)"
          by (cases "setTimeout (Backoff (100 * 2 ^ nat i)) s3")
        obtain r' s5 where at: "await_timer env t evs1 s4 = (r', s5)"
          by (cases "await_timer env t evs1 s4")
        from st have s4: "request_sends s4 = request_sends s3"
          "promise_count s4 = promise_count s3" "warnings s4 = warnings s3"
          "promises s4 = promises s3"
          by (auto simp: setTimeout_def request_sends_def)
        have s3: "request_sends s3 = request_sends s2"
          "promise_count s3 = promise_count s2"
          "warnings s3 = warnings s2 @ [retry_warning i n e]"
          "promises s3 = promises s2"
          by (simp_all add: s3_def request_sends_def)
        note e5 = await_timer_steady [OF at]
        from e5 s4 s3 sends2 count2 warn2 mono2 settled
        have sends5: "request_sends s5 = request_sends s @ [?x]"
          and count5: "promise_count s5 = Suc (promise_count s)"
          and warn5: "warnings s5 = warnings s @ [retry_warning i n e]"
          and mono5: "\<forall>q v. promises s q = Some v \<longrightarrow> promises s5 q = Some v"
          and settled5: "promises s5 p = Some v"
          by (auto simp: steady_def)
        from unfold Suc.prems(2) Some ve Inl False st at
        have res: "(res, s') =
            (case r' of None \<Rightarrow> (None, s5)
             | Some evs2 \<Rightarrow> request_loop env svc data requestId tmo n (i + 1) evs2 s5)"
          by (simp add: s3_def [symmetric] Let_def split: option.splits)
        show ?thesis
        proof (cases r')
          case None
          with res have "res = None" "s' = s5" by auto
          with sends5 count5 mono5 one show ?thesis
            by (intro exI [of _ "Suc 0"]) simp
        next
          case (Some evs2)
          with res have rec: "request_loop env svc data requestId tmo n (i + 1) evs2 s5 = (res, s')"
            by simp
          have lt: "i + 1 < n" using Suc.prems(1) False by simp
          have m: "m = nat (n - (i + 1))" using Suc.hyps(2) by simp
          from Suc.hyps(1) [OF m lt rec] obtain k where k: "1 \<le> k" "int k \<le> n - (i + 1)"
            "request_sends s' = request_sends s5 @ replicate k ?x"
            "promise_count s' = promise_count s5 + k"
            "\<forall>q v. promises s5 q = Some v \<longrightarrow> promises s' q = Some v"
            "\<forall>v. res = Some v \<longrightarrow>
              (\<exists>errs. Suc (length errs) = k \<and>
                 (\<forall>j < length errs. promises s' (promise_count s5 + j) = Some (Inl (errs ! j))) \<and>
                 promises s' (promise_count s5 + length errs) = Some v \<and>
                 warnings s' = warnings s5 @ retry_warnings (i + 1) n errs)"
            by blast
          have first: "promises s' (promise_count s) = Some (Inl e)"
            using k(5) settled5 p Inl by simp
          have out: "\<exists>errs. Suc (length errs) = Suc k \<and>
                 (\<forall>j < length errs. promises s' (promise_count s + j) = Some (Inl (errs ! j))) \<and>
                 promises s' (promise_count s + length errs) = Some w \<and>
                 warnings s' = warnings s @ retry_warnings i n errs" if "res = Some w" for w
          proof -
            from k(6) that obtain errs where errs: "Suc (length errs) = k"
              "\<forall>j < length errs. promises s' (promise_count s5 + j) = Some (Inl (errs ! j))"
              "promises s' (promise_count s5 + length errs) = Some w"
              "warnings s' = warnings s5 @ retry_warnings (i + 1) n errs"
              by blast
            have a: "\<forall>j < length (e # errs).
                      promises s' (promise_count s + j) = Some (Inl ((e # errs) ! j))"
            proof (intro allI impI)
              fix j assume "j < length (e # errs)"
              then show "promises s' (promise_count s + j) = Some (Inl ((e # errs) ! j))"
                using first errs(2) count5 by (cases j) auto
            qed
            show ?thesis
              using a errs(3,4) count5 warn5 errs(1) [symmetric]
              by (intro exI [of _ "e # errs"]) simp
          qed
          show ?thesis
            using k(1,2,3,4,5) sends5 count5 mono5 out
            by (intro exI [of _ "Suc k"]) (auto simp: replicate_app_Cons_same)
        qed
      qed
    qed
  qed
qed

lemma request_loop_done:
  "\<not> i < n \<Longrightarrow> request_loop env svc data requestId tmo n i evs s =
     (Some (Inl (EblanError ''Request failed after retries'' INTERNAL_ERROR)), s)"
  by (subst request_loop.simps) simp

lemmas run_defs =
  request_def example_env_def discover_service_a_def serialize_by_id_def deserialize_response_def
  request_message_def request_retries_def request_timeout_def number_or_else_def
  Service_new_def service_a_def service_b_def service_address_def show_int_def
  show_nat.simps request_loop.simps sendRequest_def setTimeout_def transport_send_def
  send_fails_def send_succeeds_def settle_def clearTimeout_def timer_fires_def
  handleIncomingMessage_def catch_block_def request_sends_def map_filter_def
  retry_warning_def connection_error_def timed_out_def greeting_response_def Let_def

section \<open>Service: calls\<close>

text \<open>
  C1, as amended. Let \<open>n\<close> be the retry count of a call: \<open>options.retries\<close> when it is
  given and not zero, otherwise the service's configured count (which the constructor
  sets to 3 when it is zero or missing). When \<open>n\<close> is at least 1, the service is
  discovered and the message serialized, the call makes \<open>k\<close> \<open>transport.send\<close>
  attempts with \<open>1 \<le> k \<le> n\<close>; if it returns or throws, the outcome is that of the last
  attempt made, every earlier attempt was rejected, and the errors of the earlier attempts
  were logged as warnings, in order, and nothing else was.
\<close>

theorem request_attempts:
  assumes "discover env serviceName = Some svc"
    and "serialize env (request_message uuid now rt p s) = Inr data"
    and "request_retries options s = Some n" and "1 \<le> n"
    and "request env uuid now serviceName rt p options evs s = (res, s')"
  shows "\<exists>k. 1 \<le> k \<and> int k \<le> n \<and>
           request_sends s' = request_sends s @ replicate k (service_address svc, data, uuid) \<and>
           promise_count s' = promise_count s + k \<and>
           (\<forall>v. res = Some v \<longrightarrow>
              (\<exists>errs. Suc (length errs) = k \<and>
                 (\<forall>j < length errs. promises s' (promise_count s + j) = Some (Inl (errs ! j))) \<and>
                 promises s' (promise_count s + length errs) = Some v \<and>
                 warnings s' = warnings s @ retry_warnings 0 n errs))"
proof -
  from assms have loop: "request_loop env svc data uuid (request_timeout options s) n 0 evs s =
      (res, s')"
    by (simp add: request_def)
  have "0 < n" using assms(4) by simp
  from request_loop_attempts [OF this loop] show ?thesis by auto
qed

text \<open>
  C1 at a concrete input: service B calls service A with two retries; the first send
  fails, the backoff elapses, and the response to the second attempt arrives.
\<close>

theorem request_attempts_witness:
  "discover example_env ''service-a'' = Some service_a \<and>
   serialize example_env (request_message ''123'' 0 ''greeting'' JNull (Service_new service_b)) =
     Inr ''request 123'' \<and>
   request_retries (Some two_retries) (Service_new service_b) = Some 2 \<and>
   fst (request example_env ''123'' 0 ''service-a'' ''greeting'' JNull
          (Some two_retries) fail_then_respond (Service_new service_b)) =
     Some (Inr (JObj [(''greeting'', JStr ''Hello, World!'')])) \<and>
   (\<exists>k. 1 \<le> k \<and> int k \<le> 2 \<and>
      request_sends (snd (request example_env ''123'' 0 ''service-a'' ''greeting'' JNull
          (Some two_retries) fail_then_respond (Service_new service_b))) =
        request_sends (Service_new service_b) @
          replicate k (service_address service_a, ''request 123'', ''123''))"
proof -
  let ?s = "Service_new service_b"
  let ?r = "request example_env ''123'' 0 ''service-a'' ''greeting'' JNull
              (Some two_retries) fail_then_respond ?s"
  have h1: "discover example_env ''service-a'' = Some service_a"
    by (simp add: example_env_def discover_service_a_def)
  have h2: "serialize example_env (request_message ''123'' 0 ''greeting'' JNull ?s) =
      Inr ''request 123''"
    by (simp add: example_env_def serialize_by_id_def request_message_def)
  have h3: "request_retries (Some two_retries) ?s = Some 2"
    by (simp add: request_retries_def number_or_else_def two_retries_def)
  have h4: "(1::int) \<le> 2" by simp
  have h5: "?r = (fst ?r, snd ?r)" by simp
  have v: "fst ?r = Some (Inr (JObj [(''greeting'', JStr ''Hello, World!'')]))"
    by (simp add: run_defs two_retries_def fail_then_respond_def)
  from request_attempts [OF h1 h2 h3 h4 h5]
  have "\<exists>k. 1 \<le> k \<and> int k \<le> 2 \<and>
      request_sends (snd ?r) =
        request_sends ?s @ replicate k (service_address service_a, ''request 123'', ''123'')"
    by (elim exE conjE) (intro exI conjI, assumption+)
  with h1 h2 h3 v show ?thesis by (intro conjI)
qed

text \<open>
  C1 as stated fails for a call configured with 0 retries: \<open>options.retries || ...\<close>
  takes the service's count, 3, and when every send fails three sends are made, and the
  error of the third is thrown.
\<close>

theorem zero_retries_three_sends:
  "opt_retries zero_retries = Some 0 \<and>
   fst (request example_env ''123'' 0 ''service-a'' ''greeting'' JNull
     (Some zero_retries) all_sends_fail (Service_new service_b)) =
     Some (Inl (EblanError ''Connection error: connect EHOSTUNREACH'' INTERNAL_ERROR)) \<and>
   length (request_sends (snd (request example_env ''123'' 0 ''service-a'' ''greeting'' JNull
     (Some zero_retries) all_sends_fail (Service_new service_b)))) = 3"
  by (simp add: run_defs zero_retries_def all_sends_fail_def)

text \<open>
  C3. When discovery does not know the service name, the call fails with an \<open>EblanError\<close>
  with status \<open>NOT_FOUND\<close>, whatever events occur, and the service is exactly as before:
  nothing was sent, no timer was created (neither a deadline nor a backoff), no promise
  and no warning.
\<close>

theorem request_without_discovery:
  assumes "discover env serviceName = None"
  shows "request env uuid now serviceName rt p options evs s =
           (Some (Inl (EblanError (''Service not found: '' @ serviceName) NOT_FOUND)), s)"
  using assms by (simp add: request_def)

text \<open>C3 at a concrete input: service B calls a service that discovery does not know.\<close>

theorem request_without_discovery_witness:
  "discover example_env ''service-c'' = None \<and>
   request example_env ''123'' 0 ''service-c'' ''greeting'' JNull None all_sends_fail
     (Service_new service_b) =
     (Some (Inl (EblanError ''Service not found: service-c'' NOT_FOUND)), Service_new service_b)"
  using request_without_discovery [of example_env "''service-c''" "''123''" 0 "''greeting''"
      JNull None all_sends_fail "Service_new service_b"]
  by (simp add: example_env_def discover_service_a_def)

text \<open>
  C6. The message of a call is built and serialized once, before the loop: every
  \<open>transport.send\<close> the call makes through \<open>sendRequest\<close> carries the same bytes
  \<open>data\<close>, to the same target, and its entry is stored under the same id \<open>uuid\<close>.
\<close>

theorem same_envelope_every_attempt:
  assumes "discover env serviceName = Some svc"
    and "serialize env (request_message uuid now rt p s) = Inr data"
    and "request env uuid now serviceName rt p options evs s = (res, s')"
  shows "\<exists>k. request_sends s' =
               request_sends s @ replicate k (service_address svc, data, uuid)"
proof (cases "request_retries options s")
  case None
  with assms have "s' = s" by (simp add: request_def)
  then show ?thesis by (intro exI [of _ 0]) simp
next
  case (Some n)
  with assms have loop: "request_loop env svc data uuid (request_timeout options s) n 0 evs s =
      (res, s')"
    by (simp add: request_def)
  show ?thesis
  proof (cases "0 < n")
    case True
    from request_loop_attempts [OF True loop] show ?thesis by blast
  next
    case False
    with loop have "s' = s" by (simp add: request_loop_done)
    then show ?thesis by (intro exI [of _ 0]) simp
  qed
qed

text \<open>C6 at a concrete input: three attempts, each with the bytes and the id of the first.\<close>

theorem same_envelope_every_attempt_witness:
  "discover example_env ''service-a'' = Some service_a \<and>
   serialize example_env (request_message ''123'' 0 ''greeting'' JNull (Service_new service_b)) =
     Inr ''request 123'' \<and>
   request_sends (snd (request example_env ''123'' 0 ''service-a'' ''greeting'' JNull
          (Some zero_retries) all_sends_fail (Service_new service_b))) =
     [(''127.0.0.1:3000'', ''request 123'', ''123''),
      (''127.0.0.1:3000'', ''request 123'', ''123''),
      (''127.0.0.1:3000'', ''request 123'', ''123'')] \<and>
   (\<exists>k. request_sends (snd (request example_env ''123'' 0 ''service-a'' ''greeting'' JNull
          (Some zero_retries) all_sends_fail (Service_new service_b))) =
        request_sends (Service_new service_b) @
          replicate k (service_address service_a, ''request 123'', ''123''))"
proof -
  let ?s = "Service_new service_b"
  let ?r = "request example_env ''123'' 0 ''service-a'' ''greeting'' JNull
              (Some zero_retries) all_sends_fail ?s"
  have h1: "discover example_env ''service-a'' = Some service_a"
    by (simp add: example_env_def discover_service_a_def)
  have h2: "serialize example_env (request_message ''123'' 0 ''greeting'' JNull ?s) =
      Inr ''request 123''"
    by (simp add: example_env_def serialize_by_id_def request_message_def)
  have h3: "?r = (fst ?r, snd ?r)" by simp
  have v: "request_sends (snd ?r) =
      [(''127.0.0.1:3000'', ''request 123'', ''123''),
       (''127.0.0.1:3000'', ''request 123'', ''123''),
       (''127.0.0.1:3000'', ''request 123'', ''123'')]"
    by (simp add: run_defs zero_retries_def all_sends_fail_def)
  from same_envelope_every_attempt [OF h1 h2 h3] h1 h2 v show ?thesis by (intro conjI)
qed

section \<open>Service: incoming responses\<close>

text \<open>
  C2. A frame that decodes to a \<open>RESPONSE\<close> whose id has no entry in \<open>pendingRequests\<close>
  leaves the service exactly as it was: no error is handled, nothing is sent, and the
  entries, timers, routes and subscriptions are unchanged.
\<close>

theorem unmatched_response_dropped:
  assumes "deserialize env data = Inr m" and "type_h (header m) = RESPONSE"
    and "pendingRequests s (id_h (header m)) = None"
  shows "handleIncomingMessage env now data s = s"
  using assms by (simp add: handleIncomingMessage_def route_def)

text \<open>C2 at a concrete input: a response arrives at a service that has no call pending.\<close>

theorem unmatched_response_dropped_witness:
  "deserialize example_env ''response 123'' = Inr greeting_response \<and>
   type_h (header greeting_response) = RESPONSE \<and>
   pendingRequests (Service_new service_b) (id_h (header greeting_response)) = None \<and>
   handleIncomingMessage example_env 9 ''response 123'' (Service_new service_b) =
     Service_new service_b"
  using unmatched_response_dropped [of example_env "''response 123''" greeting_response
      "Service_new service_b" 9]
  by (simp add: example_env_def deserialize_response_def greeting_response_def Service_new_def)

section \<open>Service: entries and their timers\<close>

text \<open>
  A new service is paired, and pairing is kept by \<open>sendRequest\<close> under an id that has
  no entry, by the backoff timer, and by every event except a stale send failure.
\<close>

lemma paired_entry:
  "paired s \<Longrightarrow> pendingRequests s requestId = Some pr \<Longrightarrow>
   \<exists>d. timers s (timer pr) = Some (Deadline requestId (promise pr) d)"
  unfolding paired_def by blast

lemma paired_timer:
  "paired s \<Longrightarrow> timers s t = Some (Deadline requestId p d) \<Longrightarrow>
   pendingRequests s requestId = Some \<lparr>promise = p, timer = t\<rparr>"
  unfolding paired_def by blast

lemma paired_fresh: "paired s \<Longrightarrow> timer_count s \<le> t \<Longrightarrow> timers s t = None"
  unfolding paired_def by blast

lemma paired_in_flight:
  "paired s \<Longrightarrow> in_flight s k = Some (RequestSend t requestId p) \<Longrightarrow>
   t < timer_count s \<and> (\<forall>cb. timers s t = Some cb \<longrightarrow> (\<exists>d. cb = Deadline requestId p d))"
  unfolding paired_def by blast

lemma paired_new: "paired (Service_new options)"
  by (simp add: paired_def Service_new_def)

lemma paired_cong:
  "pendingRequests s' = pendingRequests s \<Longrightarrow> timers s' = timers s \<Longrightarrow>
   timer_count s' = timer_count s \<Longrightarrow> in_flight s' = in_flight s \<Longrightarrow> paired s' = paired s"
  by (simp add: paired_def)

lemma paired_settle: "paired (settle p v s) = paired s"
  by (rule paired_cong) (simp_all add: settle_def)

lemma paired_fewer_in_flight: "paired s \<Longrightarrow> paired (s\<lparr>in_flight := (in_flight s)(k := None)\<rparr>)"
  by (simp add: paired_def)

lemma paired_send:
  assumes "paired s" and "\<forall>t requestId p. c \<noteq> RequestSend t requestId p"
  shows "paired (transport_send tgt data c s)"
  using assms by (simp add: paired_def transport_send_def)

text \<open>Removing an entry together with its own timer, or a backoff timer alone.\<close>

lemma paired_remove:
  assumes "paired s" and "timers s t = Some (Deadline requestId p d)"
  shows "paired (s\<lparr>timers := (timers s)(t := None),
                   pendingRequests := (pendingRequests s)(requestId := None)\<rparr>)"
    (is "paired ?s'")
proof -
  from paired_timer [OF assms]
  have entry: "pendingRequests s requestId = Some \<lparr>promise = p, timer = t\<rparr>" .
  have a: "timer pr \<noteq> t" if "pendingRequests s r' = Some pr" "r' \<noteq> requestId" for r' pr
  proof
    assume "timer pr = t"
    with paired_entry [OF assms(1) that(1)] assms(2) that(2) show False by simp
  qed
  have b: "r' \<noteq> requestId" if "timers s t' = Some (Deadline r' q d')" "t' \<noteq> t" for t' r' q d'
  proof
    assume "r' = requestId"
    with paired_timer [OF assms(1) that(1)] entry that(2) show False by simp
  qed
  show ?thesis
    unfolding paired_def
  proof (intro conjI allI impI)
    fix r' pr
    assume "pendingRequests ?s' r' = Some pr"
    then have p: "pendingRequests s r' = Some pr" "r' \<noteq> requestId"
      by (auto split: if_splits)
    from paired_entry [OF assms(1) p(1)] a [OF p]
    show "\<exists>d. timers ?s' (timer pr) = Some (Deadline r' (promise pr) d)" by simp
  next
    fix t' r' q d'
    assume "timers ?s' t' = Some (Deadline r' q d')"
    then have p: "timers s t' = Some (Deadline r' q d')" "t' \<noteq> t"
      by (auto split: if_splits)
    from paired_timer [OF assms(1) p(1)] b [OF p]
    show "pendingRequests ?s' r' = Some \<lparr>promise = q, timer = t'\<rparr>" by simp
  next
    fix t'
    assume "timer_count ?s' \<le> t'"
    with paired_fresh [OF assms(1), of t'] show "timers ?s' t' = None" by simp
  next
    fix k t' r' q
    assume "in_flight ?s' k = Some (RequestSend t' r' q)"
    with paired_in_flight [OF assms(1), of k t' r' q] show "t' < timer_count ?s'" by simp
  next
    fix k t' r' q cb
    assume "in_flight ?s' k = Some (RequestSend t' r' q)" and "timers ?s' t' = Some cb"
    with paired_in_flight [OF assms(1), of k t' r' q] show "\<exists>d. cb = Deadline r' q d"
      by (auto split: if_splits)
  qed
qed

lemma paired_remove_backoff:
  assumes "paired s" and "timers s t = Some (Backoff d)"
  shows "paired (s\<lparr>timers := (timers s)(t := None)\<rparr>)" (is "paired ?s'")
  unfolding paired_def
proof (intro conjI allI impI)
  fix r' pr
  assume "pendingRequests ?s' r' = Some pr"
  then have "pendingRequests s r' = Some pr" by simp
  from paired_entry [OF assms(1) this] assms(2)
  show "\<exists>d. timers ?s' (timer pr) = Some (Deadline r' (promise pr) d)" by auto
next
  fix t' r' q d'
  assume "timers ?s' t' = Some (Deadline r' q d')"
  then have "timers s t' = Some (Deadline r' q d')" by (auto split: if_splits)
  from paired_timer [OF assms(1) this]
  show "pendingRequests ?s' r' = Some \<lparr>promise = q, timer = t'\<rparr>" by simp
next
  fix t'
  assume "timer_count ?s' \<le> t'"
  with paired_fresh [OF assms(1), of t'] show "timers ?s' t' = None" by simp
next
  fix k t' r' q
  assume "in_flight ?s' k = Some (RequestSend t' r' q)"
  with paired_in_flight [OF assms(1), of k t' r' q] show "t' < timer_count ?s'" by simp
next
  fix k t' r' q cb
  assume "in_flight ?s' k = Some (RequestSend t' r' q)" and "timers ?s' t' = Some cb"
  with paired_in_flight [OF assms(1), of k t' r' q] show "\<exists>d. cb = Deadline r' q d"
    by (auto split: if_splits)
qed

lemma paired_timer_fires:
  assumes "paired s"
  shows "paired (timer_fires t s)"
proof (cases "timers s t")
  case None
  with assms show ?thesis by (simp add: timer_fires_def)
next
  case (Some cb)
  show ?thesis
  proof (cases cb)
    case (Deadline requestId p d)
    with Some paired_remove [OF assms] show ?thesis
      by (simp add: timer_fires_def paired_settle)
  next
    case (Backoff d)
    with Some paired_remove_backoff [OF assms] show ?thesis
      by (simp add: timer_fires_def)
  qed
qed

lemma paired_catch_block: "paired s \<Longrightarrow> paired (catch_block env now data e s)"
proof -
  assume inv: "paired s"
  have h: "paired (s\<lparr>handled := x\<rparr>)" for x
    using inv by (simp add: paired_def)
  show ?thesis
    unfolding catch_block_def Let_def
    by (auto split: sum.splits intro!: h paired_send)
qed

lemma paired_handleIncomingMessage:
  assumes "paired s"
  shows "paired (handleIncomingMessage env now data s)"
proof (cases "deserialize env data")
  case (Inl e)
  with assms show ?thesis by (simp add: handleIncomingMessage_def paired_catch_block)
next
  case (Inr m)
  show ?thesis
  proof (cases "if type_h (header m) = RESPONSE then pendingRequests s (id_h (header m)) else None")
    case None
    have r: "paired (s\<lparr>router := x\<rparr>)" for x
      using assms by (simp add: paired_def)
    from Inr None show ?thesis
      by (auto simp: handleIncomingMessage_def Let_def split: prod.splits sum.splits
          intro!: r paired_catch_block paired_send)
  next
    case (Some pr)
    then have entry: "pendingRequests s (id_h (header m)) = Some pr"
      by (simp split: if_splits)
    from paired_entry [OF assms entry] obtain d where
      "timers s (timer pr) = Some (Deadline (id_h (header m)) (promise pr) d)" ..
    from paired_remove [OF assms this] Inr Some show ?thesis
      by (simp add: handleIncomingMessage_def Let_def clearTimeout_def paired_settle)
  qed
qed

lemma paired_send_fails:
  assumes "paired s" and "\<not> stale_send_failure (SendFails k e now) s"
  shows "paired (send_fails env now k e s)"
proof (cases "in_flight s k")
  case None
  with assms show ?thesis by (simp add: send_fails_def)
next
  case (Some c)
  let ?s1 = "s\<lparr>in_flight := (in_flight s)(k := None)\<rparr>"
  have s1: "paired ?s1" by (rule paired_fewer_in_flight [OF assms(1)])
  show ?thesis
  proof (cases c)
    case (RequestSend t requestId p)
    note flight = paired_in_flight [OF assms(1) Some [unfolded RequestSend]]
    show ?thesis
    proof (cases "pendingRequests s requestId")
      case None
      have "timers s t = None"
      proof (cases "timers s t")
        case (Some cb)
        with flight obtain d where "timers s t = Some (Deadline requestId p d)" by auto
        from paired_timer [OF assms(1) this] None show ?thesis by simp
      qed simp
      then have "(timers s)(t := None) = timers s" by auto
      moreover from None have "(pendingRequests s)(requestId := None) = pendingRequests s" by auto
      ultimately show ?thesis
        using Some RequestSend s1
        by (simp add: send_fails_def clearTimeout_def paired_settle)
    next
      case (Some pr)
      with assms(2) \<open>in_flight s k = Some c\<close> RequestSend have "timer pr = t"
        by (simp add: stale_send_failure_def)
      with paired_entry [OF assms(1) Some] obtain d where
        "timers ?s1 t = Some (Deadline requestId (promise pr) d)" by auto
      from paired_remove [OF s1 this] \<open>in_flight s k = Some c\<close> RequestSend show ?thesis
        by (simp add: send_fails_def clearTimeout_def paired_settle)
    qed
  next
    case (ResponseSend data)
    with Some paired_catch_block [OF s1] show ?thesis by (simp add: send_fails_def)
  next
    case ErrorResponseSend
    with Some s1 show ?thesis by (simp add: send_fails_def)
  qed
qed

lemma paired_step:
  assumes "paired s" and "\<not> stale_send_failure e s"
  shows "paired (step env e s)"
proof (cases e)
  case (TimerFires t)
  with assms show ?thesis by (simp add: paired_timer_fires)
next
  case (SendFails k err now)
  with assms show ?thesis by (simp add: paired_send_fails)
next
  case (SendSucceeds k)
  with assms show ?thesis by (simp add: send_succeeds_def paired_fewer_in_flight)
next
  case (Incoming data now)
  with assms show ?thesis by (simp add: paired_handleIncomingMessage)
qed

lemma paired_sendRequest:
  assumes "paired s" and "pendingRequests s requestId = None"
  shows "paired (snd (sendRequest svc data requestId tmo s))" (is "paired ?s'")
proof -
  let ?t = "timer_count s" and ?p = "promise_count s"
  have f: "timers ?s' = (timers s)(?t \<mapsto> Deadline requestId ?p tmo)"
    "pendingRequests ?s' = (pendingRequests s)(requestId \<mapsto> \<lparr>promise = ?p, timer = ?t\<rparr>)"
    "timer_count ?s' = Suc ?t"
    "in_flight ?s' = (in_flight s)(length (outbox s) \<mapsto> RequestSend ?t requestId ?p)"
    by (simp_all add: sendRequest_def setTimeout_def transport_send_def Let_def)
  have fresh: "timers s ?t = None" by (rule paired_fresh [OF assms(1)]) simp
  show ?thesis
    unfolding paired_def f
  proof (intro conjI allI impI)
    fix r' pr
    assume a: "((pendingRequests s)(requestId \<mapsto> \<lparr>promise = ?p, timer = ?t\<rparr>)) r' = Some pr"
    show "\<exists>d. ((timers s)(?t \<mapsto> Deadline requestId ?p tmo)) (timer pr) =
        Some (Deadline r' (promise pr) d)"
    proof (cases "r' = requestId")
      case True
      with a show ?thesis by auto
    next
      case False
      with a have p: "pendingRequests s r' = Some pr" by simp
      from paired_entry [OF assms(1) p] fresh show ?thesis by auto
    qed
  next
    fix t' r' q d'
    assume a: "((timers s)(?t \<mapsto> Deadline requestId ?p tmo)) t' = Some (Deadline r' q d')"
    show "((pendingRequests s)(requestId \<mapsto> \<lparr>promise = ?p, timer = ?t\<rparr>)) r' =
        Some \<lparr>promise = q, timer = t'\<rparr>"
    proof (cases "t' = ?t")
      case True
      with a show ?thesis by auto
    next
      case False
      with a have "timers s t' = Some (Deadline r' q d')" by simp
      from paired_timer [OF assms(1) this] assms(2) show ?thesis by auto
    qed
  next
    fix t'
    assume "Suc ?t \<le> t'"
    with paired_fresh [OF assms(1), of t'] show
      "((timers s)(?t \<mapsto> Deadline requestId ?p tmo)) t' = None" by simp
  next
    fix k t' r' q
    assume "((in_flight s)(length (outbox s) \<mapsto> RequestSend ?t requestId ?p)) k =
        Some (RequestSend t' r' q)"
    with paired_in_flight [OF assms(1), of k t' r' q] show "t' < Suc ?t"
      by (auto split: if_splits)
  next
    fix k t' r' q cb
    assume "((in_flight s)(length (outbox s) \<mapsto> RequestSend ?t requestId ?p)) k =
        Some (RequestSend t' r' q)"
      and "((timers s)(?t \<mapsto> Deadline requestId ?p tmo)) t' = Some cb"
    with paired_in_flight [OF assms(1), of k t' r' q] show "\<exists>d. cb = Deadline r' q d"
      by (auto split: if_splits)
  qed
qed

lemma paired_backoff:
  assumes "paired s"
  shows "paired (snd (setTimeout (Backoff d) s))" (is "paired ?s'")
proof -
  let ?t = "timer_count s"
  have f: "timers ?s' = (timers s)(?t \<mapsto> Backoff d)" "pendingRequests ?s' = pendingRequests s"
    "timer_count ?s' = Suc ?t" "in_flight ?s' = in_flight s"
    by (simp_all add: setTimeout_def)
  have fresh: "timers s ?t = None" by (rule paired_fresh [OF assms]) simp
  show ?thesis
    unfolding paired_def f
  proof (intro conjI allI impI)
    fix r' pr
    assume "pendingRequests s r' = Some pr"
    from paired_entry [OF assms this] fresh
    show "\<exists>d'. ((timers s)(?t \<mapsto> Backoff d)) (timer pr) = Some (Deadline r' (promise pr) d')"
      by auto
  next
    fix t' r' q d'
    assume "((timers s)(?t \<mapsto> Backoff d)) t' = Some (Deadline r' q d')"
    then have "timers s t' = Some (Deadline r' q d')" by (auto split: if_splits)
    from paired_timer [OF assms this]
    show "pendingRequests s r' = Some \<lparr>promise = q, timer = t'\<rparr>" .
  next
    fix t'
    assume "Suc ?t \<le> t'"
    with paired_fresh [OF assms, of t'] show "((timers s)(?t \<mapsto> Backoff d)) t' = None" by simp
  next
    fix k t' r' q
    assume "in_flight s k = Some (RequestSend t' r' q)"
    with paired_in_flight [OF assms, of k t' r' q] show "t' < Suc ?t" by simp
  next
    fix k t' r' q cb
    assume "in_flight s k = Some (RequestSend t' r' q)"
      and "((timers s)(?t \<mapsto> Backoff d)) t' = Some cb"
    with paired_in_flight [OF assms, of k t' r' q] show "\<exists>d. cb = Deadline r' q d"
      by (auto split: if_splits)
  qed
qed

lemma late_send_failure_run:
  "fst (request example_env ''123'' 0 ''service-a'' ''greeting'' JNull (Some one_second)
         late_send_failure (Service_new service_b)) = None \<and>
   pendingRequests (snd (request example_env ''123'' 0 ''service-a'' ''greeting'' JNull
         (Some one_second) late_send_failure (Service_new service_b))) ''123'' = None \<and>
   timers (snd (request example_env ''123'' 0 ''service-a'' ''greeting'' JNull
         (Some one_second) late_send_failure (Service_new service_b))) 2 =
     Some (Deadline ''123'' 1 (Some 1000))"
  by (simp add: run_defs one_second_def late_send_failure_def)

lemma late_send_failure_not_paired:
  "\<not> paired (snd (request example_env ''123'' 0 ''service-a'' ''greeting'' JNull
         (Some one_second) late_send_failure (Service_new service_b)))"
proof
  assume "paired (snd (request example_env ''123'' 0 ''service-a'' ''greeting'' JNull
         (Some one_second) late_send_failure (Service_new service_b)))"
  from paired_timer [OF this, of 2 "''123''" 1 "Some 1000"] late_send_failure_run
  show False by simp
qed

text \<open>
  C5. An entry of \<open>pendingRequests\<close> and its deadline timer should always be removed
  together. In this run they are not. Service B calls service A with a timeout of
  1000 ms. The deadline of the first attempt fires (timer 0), the backoff elapses
  (timer 1), the second attempt stores its entry under the same id with timer 2, and then
  the \<open>transport.send\<close> of the first attempt fails: its \<open>catch\<close> handler clears timer 0,
  which has fired, and deletes the entry, which is the second attempt's. The call is
  still waiting, timer 2 is scheduled, and no entry is left for it.
\<close>

theorem late_send_failure_unpairs:
  "fst (request example_env ''123'' 0 ''service-a'' ''greeting'' JNull (Some one_second)
         late_send_failure (Service_new service_b)) = None \<and>
   pendingRequests (snd (request example_env ''123'' 0 ''service-a'' ''greeting'' JNull
         (Some one_second) late_send_failure (Service_new service_b))) ''123'' = None \<and>
   timers (snd (request example_env ''123'' 0 ''service-a'' ''greeting'' JNull
         (Some one_second) late_send_failure (Service_new service_b))) 2 =
     Some (Deadline ''123'' 1 (Some 1000))"
  by (rule late_send_failure_run)

end
